theory Spec2Isabelle
  imports Complex_Main "HOL-Library.Sublist" "HOL-Library.AList"
begin

section \<open>Strings\<close>

text \<open>
  JavaScript strings are modelled as \<open>string\<close>. The only characters the plugin inspects
  are the ASCII characters \<open>/\<close>, \<open>~\<close> and \<open>$\<close>, so \<open>startsWith\<close>, \<open>endsWith\<close>,
  \<open>slice\<close> past a prefix that matches and \<open>split("/")\<close> do not depend on how the
  other characters are encoded.
\<close>

definition startsWith :: "string \<Rightarrow> string \<Rightarrow> bool" where
  "startsWith s p = prefix p s"

definition endsWith :: "string \<Rightarrow> string \<Rightarrow> bool" where
  "endsWith s p = suffix p s"

section \<open>The sound pack and the resolved configuration\<close>

text \<open>\<open>type SoundEntry = string | { path: string }\<close>\<close>

datatype SoundEntry = EntryString string | EntryObject string

text \<open>
  A \<open>Record<string, SoundEntry>\<close> is the list of its own properties in the order in which
  \<open>Object.entries\<close> enumerates them. A JavaScript object has each key once.
\<close>

type_synonym EntryRecord = "(string \<times> SoundEntry) list"

record Opencode =
  oc_events :: "EntryRecord option"
  oc_hooks :: "EntryRecord option"

record SoundPack =
  schema :: "string option"
  version :: "rat option"
  baseDir :: "string option"
  opencode :: "Opencode option"
  claude :: "(string \<times> EntryRecord) list option"

text \<open>
  The objects \<open>events\<close> and \<open>hooks\<close> that \<open>buildConfigFromPack\<close> fills start as the
  literal \<open>{}\<close> and receive \<open>{ path }\<close> values by assignment \<open>obj[key] = { path }\<close>.
  Such an assignment creates or overwrites an own property, except for the key
  \<open>__proto__\<close>: that name is the accessor inherited from \<open>Object.prototype\<close>, and
  assigning an object to it replaces the prototype of \<open>obj\<close> instead of creating a
  property. A \<open>PathObject\<close> therefore has its own properties (key and path, in insertion
  order) and, when the prototype was replaced, the path of the \<open>{ path }\<close> object that is
  now the prototype (\<open>None\<close>: the prototype is still \<open>Object.prototype\<close>).
  JavaScript enumerates keys that are array indices before the others; the list keeps
  them where they were inserted, and nothing below depends on the order of different keys.
\<close>

record PathObject =
  own :: "(string \<times> string) list"
  proto :: "string option"

record SoundConfig =
  events :: PathObject
  hooks :: PathObject

definition emptyObject :: PathObject where
  "emptyObject = \<lparr>own = [], proto = None\<rparr>"

text \<open>\<open>obj[key] = { path }\<close>\<close>

definition setProp :: "string \<Rightarrow> string \<Rightarrow> PathObject \<Rightarrow> PathObject" where
  "setProp key path obj =
     (if key = ''__proto__'' then obj\<lparr>proto := Some path\<rparr>
      else obj\<lparr>own := AList.update key path (own obj)\<rparr>)"

text \<open>
  What \<open>obj[key]\<close> evaluates to. Besides an own \<open>{ path }\<close> value, the lookup can reach
  the replaced prototype (under the key \<open>__proto__\<close>), the string stored in the replaced
  prototype (under the key \<open>path\<close>), a member of \<open>Object.prototype\<close>, or nothing; the last
  two are one case here, because neither \<open>undefined\<close> nor any member of
  \<open>Object.prototype\<close> has a truthy \<open>path\<close>.
\<close>

datatype PropValue = PathValue string | StringValue string | NoPath

definition getProp :: "PathObject \<Rightarrow> string \<Rightarrow> PropValue" where
  "getProp obj key =
     (case map_of (own obj) key of
        Some path \<Rightarrow> PathValue path
      | None \<Rightarrow>
          (case proto obj of
             None \<Rightarrow> NoPath
           | Some path \<Rightarrow>
               if key = ''__proto__'' then PathValue path
               else if key = ''path'' then StringValue path
               else NoPath))"

text \<open>\<open>cfg?.path\<close>, with \<open>None\<close> for \<open>undefined\<close>\<close>

fun pathOf :: "PropValue \<Rightarrow> string option" where
  "pathOf (PathValue path) = Some path"
| "pathOf (StringValue s) = None"
| "pathOf NoPath = None"

section \<open>Path normalization\<close>

definition DEFAULT_BASE_DIR :: string where
  "DEFAULT_BASE_DIR = ''~/.claude/sounds''"

text \<open>\<open>typeof entry === "string" ? entry : entry.path\<close>\<close>

fun rawPath :: "SoundEntry \<Rightarrow> string" where
  "rawPath (EntryString s) = s"
| "rawPath (EntryObject p) = p"

definition normalizePath :: "string \<Rightarrow> SoundEntry \<Rightarrow> string" where
  "normalizePath dir entry =
     (let raw = rawPath entry in
      if raw = [] then []
      else if startsWith raw ''/'' \<or> startsWith raw ''~'' then raw
      else if endsWith dir ''/'' then dir @ raw
      else dir @ ''/'' @ raw)"

section \<open>Building the configuration\<close>

text \<open>\<open>pack?.baseDir || DEFAULT_BASE_DIR\<close>: an absent and an empty \<open>baseDir\<close> are both falsy.\<close>

definition resolvedBaseDir :: "SoundPack option \<Rightarrow> string" where
  "resolvedBaseDir pack =
     (case pack of
        None \<Rightarrow> DEFAULT_BASE_DIR
      | Some p \<Rightarrow>
          (case baseDir p of
             None \<Rightarrow> DEFAULT_BASE_DIR
           | Some b \<Rightarrow> if b = [] then DEFAULT_BASE_DIR else b))"

text \<open>\<open>pack?.opencode?.events\<close> and \<open>pack?.opencode?.hooks\<close>\<close>

definition packEvents :: "SoundPack option \<Rightarrow> EntryRecord option" where
  "packEvents pack =
     (case pack of
        None \<Rightarrow> None
      | Some p \<Rightarrow> (case opencode p of None \<Rightarrow> None | Some oc \<Rightarrow> oc_events oc))"

definition packHooks :: "SoundPack option \<Rightarrow> EntryRecord option" where
  "packHooks pack =
     (case pack of
        None \<Rightarrow> None
      | Some p \<Rightarrow> (case opencode p of None \<Rightarrow> None | Some oc \<Rightarrow> oc_hooks oc))"

text \<open>
  The loop \<open>for (const [key, entry] of Object.entries(section))\<close>: normalize, and store the
  path when it is not empty.
\<close>

fun addEntries :: "string \<Rightarrow> EntryRecord \<Rightarrow> PathObject \<Rightarrow> PathObject" where
  "addEntries dir [] obj = obj"
| "addEntries dir ((key, entry) # rest) obj =
     (let path = normalizePath dir entry in
      addEntries dir rest (if path \<noteq> [] then setProp key path obj else obj))"

text \<open>The two mappings as they stand before the default is considered.\<close>

definition normalizedEvents :: "SoundPack option \<Rightarrow> PathObject" where
  "normalizedEvents pack =
     (case packEvents pack of
        None \<Rightarrow> emptyObject
      | Some es \<Rightarrow> addEntries (resolvedBaseDir pack) es emptyObject)"

definition normalizedHooks :: "SoundPack option \<Rightarrow> PathObject" where
  "normalizedHooks pack =
     (case packHooks pack of
        None \<Rightarrow> emptyObject
      | Some hs \<Rightarrow> addEntries (resolvedBaseDir pack) hs emptyObject)"

definition buildConfigFromPack :: "SoundPack option \<Rightarrow> SoundConfig" where
  "buildConfigFromPack pack =
     (let evs = normalizedEvents pack;
          hks = normalizedHooks pack
      in if length (own evs) = 0 \<and> length (own hks) = 0
         then \<lparr>events = setProp ''session.idle'' (DEFAULT_BASE_DIR @ ''/mew.wav'') evs,
               hooks = hks\<rparr>
         else \<lparr>events = evs, hooks = hks\<rparr>)"

text \<open>The pack of the scenario \<open>{baseDir: "/snd", opencode: {events: {"session.idle": "mew.wav"}}}\<close>.\<close>

definition sndPack :: SoundPack where
  "sndPack =
     \<lparr>schema = None, version = None, baseDir = Some ''/snd'',
      opencode = Some \<lparr>oc_events = Some [(''session.idle'', EntryString ''mew.wav'')],
                       oc_hooks = None\<rparr>,
      claude = None\<rparr>"

section \<open>The pack as it is at run time\<close>

text \<open>
  \<open>loadSoundPack\<close> returns whatever \<open>file.json()\<close> parsed, cast to \<open>SoundPack\<close>
  without a check, so at run time \<open>buildConfigFromPack\<close> and \<open>normalizePath\<close> run on
  an arbitrary JSON value. \<open>JObj\<close> lists the own properties in \<open>Object.entries\<close> order,
  each key once. Of a number only being zero or not is observed.
\<close>

datatype json =
    JNull
  | JBool bool
  | JNum rat
  | JStr string
  | JArr "json list"
  | JObj "(string \<times> json) list"

datatype error = TypeError | ReadError | SyntaxError

fun typeof :: "json \<Rightarrow> string" where
  "typeof JNull = ''object''"
| "typeof (JBool b) = ''boolean''"
| "typeof (JNum n) = ''number''"
| "typeof (JStr s) = ''string''"
| "typeof (JArr xs) = ''object''"
| "typeof (JObj kvs) = ''object''"

fun truthy :: "json \<Rightarrow> bool" where
  "truthy JNull = False"
| "truthy (JBool b) = b"
| "truthy (JNum n) = (n \<noteq> 0)"
| "truthy (JStr s) = (s \<noteq> [])"
| "truthy (JArr xs) = True"
| "truthy (JObj kvs) = True"

text \<open>
  \<open>v.name\<close> for a value \<open>v\<close> other than \<open>null\<close>, with \<open>None\<close> for \<open>undefined\<close>. It is
  used for the names \<open>baseDir\<close>, \<open>opencode\<close>, \<open>events\<close>, \<open>hooks\<close> and \<open>path\<close> only, which
  no array, string, number or boolean has and which \<open>Object.prototype\<close> does not define.
\<close>

fun member :: "json \<Rightarrow> string \<Rightarrow> json option" where
  "member (JObj kvs) name = map_of kvs name"
| "member v name = None"

text \<open>\<open>v?.name\<close>\<close>

fun optMember :: "json option \<Rightarrow> string \<Rightarrow> json option" where
  "optMember None name = None"
| "optMember (Some JNull) name = None"
| "optMember (Some v) name = member v name"

definition digitChar :: "nat \<Rightarrow> char" where
  "digitChar d = ''0123456789'' ! d"

fun decimal :: "nat \<Rightarrow> string" where
  "decimal n = (if n < 10 then [digitChar n] else decimal (n div 10) @ [digitChar (n mod 10)])"

text \<open>
  \<open>Object.entries(v)\<close>: the own properties of an object, the elements of an array under
  their indices, the characters of a string under their indices (one entry for each
  \<open>char\<close>, which is what JavaScript does for an ASCII string), nothing for a number or a
  boolean, and a \<open>TypeError\<close> for \<open>null\<close>.
\<close>

fun objectEntries :: "json \<Rightarrow> error + (string \<times> json) list" where
  "objectEntries JNull = Inl TypeError"
| "objectEntries (JBool b) = Inr []"
| "objectEntries (JNum n) = Inr []"
| "objectEntries (JStr s) = Inr (zip (map decimal [0..<length s]) (map (\<lambda>c. JStr [c]) s))"
| "objectEntries (JArr xs) = Inr (zip (map decimal [0..<length xs]) xs)"
| "objectEntries (JObj kvs) = Inr kvs"

text \<open>
  \<open>normalizePath\<close> on unchecked values. \<open>entry.path\<close> throws for \<open>null\<close>;
  \<open>raw.startsWith\<close> and \<open>baseDir.endsWith\<close> are functions only when the value is a
  string, and calling anything else throws.
\<close>

definition normalizePath_js :: "json \<Rightarrow> json \<Rightarrow> error + string" where
  "normalizePath_js dir entry =
     (case (case entry of
              JStr s \<Rightarrow> Inr (Some entry)
            | JNull \<Rightarrow> Inl TypeError
            | _ \<Rightarrow> Inr (member entry ''path'')) of
        Inl e \<Rightarrow> Inl e
      | Inr None \<Rightarrow> Inr []
      | Inr (Some raw) \<Rightarrow>
          if \<not> truthy raw then Inr []
          else (case raw of
                  JStr r \<Rightarrow>
                    if startsWith r ''/'' \<or> startsWith r ''~'' then Inr r
                    else (case dir of
                            JStr b \<Rightarrow> if endsWith b ''/'' then Inr (b @ r) else Inr (b @ ''/'' @ r)
                          | _ \<Rightarrow> Inl TypeError)
                | _ \<Rightarrow> Inl TypeError))"

fun addEntries_js :: "json \<Rightarrow> (string \<times> json) list \<Rightarrow> PathObject \<Rightarrow> error + PathObject" where
  "addEntries_js dir [] obj = Inr obj"
| "addEntries_js dir ((key, entry) # rest) obj =
     (case normalizePath_js dir entry of
        Inl e \<Rightarrow> Inl e
      | Inr path \<Rightarrow> addEntries_js dir rest (if path \<noteq> [] then setProp key path obj else obj))"

text \<open>\<open>pack?.baseDir || DEFAULT_BASE_DIR\<close>\<close>

definition resolvedBaseDir_js :: "json \<Rightarrow> json" where
  "resolvedBaseDir_js pack =
     (case optMember (Some pack) ''baseDir'' of
        None \<Rightarrow> JStr DEFAULT_BASE_DIR
      | Some b \<Rightarrow> if truthy b then b else JStr DEFAULT_BASE_DIR)"

text \<open>
  \<open>if (pack?.opencode?.name) { for (... of Object.entries(pack.opencode.name)) ... }\<close>
  starting from \<open>{}\<close>
\<close>

definition normalizedSection_js :: "json \<Rightarrow> string \<Rightarrow> error + PathObject" where
  "normalizedSection_js pack name =
     (case optMember (optMember (Some pack) ''opencode'') name of
        None \<Rightarrow> Inr emptyObject
      | Some sec \<Rightarrow>
          if truthy sec
          then (case objectEntries sec of
                  Inl e \<Rightarrow> Inl e
                | Inr kvs \<Rightarrow> addEntries_js (resolvedBaseDir_js pack) kvs emptyObject)
          else Inr emptyObject)"

definition buildConfigFromPack_js :: "json \<Rightarrow> error + SoundConfig" where
  "buildConfigFromPack_js pack =
     (case normalizedSection_js pack ''events'' of
        Inl e \<Rightarrow> Inl e
      | Inr evs \<Rightarrow>
          (case normalizedSection_js pack ''hooks'' of
             Inl e \<Rightarrow> Inl e
           | Inr hks \<Rightarrow>
               if length (own evs) = 0 \<and> length (own hks) = 0
               then Inr \<lparr>events = setProp ''session.idle'' (DEFAULT_BASE_DIR @ ''/mew.wav'') evs,
                         hooks = hks\<rparr>
               else Inr \<lparr>events = evs, hooks = hks\<rparr>))"

text \<open>The JSON document of a pack that has the declared type.\<close>

fun encodeEntry :: "SoundEntry \<Rightarrow> json" where
  "encodeEntry (EntryString s) = JStr s"
| "encodeEntry (EntryObject p) = JObj [(''path'', JStr p)]"

definition encodeRecord :: "EntryRecord \<Rightarrow> json" where
  "encodeRecord es = JObj (map (\<lambda>(key, entry). (key, encodeEntry entry)) es)"

fun optField :: "string \<Rightarrow> json option \<Rightarrow> (string \<times> json) list" where
  "optField name None = []"
| "optField name (Some v) = [(name, v)]"

definition encodeOpencode :: "Opencode \<Rightarrow> json" where
  "encodeOpencode oc =
     JObj (optField ''events'' (map_option encodeRecord (oc_events oc)) @
           optField ''hooks'' (map_option encodeRecord (oc_hooks oc)))"

definition encodePack :: "SoundPack \<Rightarrow> json" where
  "encodePack p =
     JObj (optField ''$schema'' (map_option JStr (schema p)) @
           optField ''version'' (map_option JNum (version p)) @
           optField ''baseDir'' (map_option JStr (baseDir p)) @
           optField ''opencode'' (map_option encodeOpencode (opencode p)) @
           optField ''claude''
             (map_option (\<lambda>c. JObj (map (\<lambda>(key, r). (key, encodeRecord r)) c)) (claude p)))"

fun encodePackOrNull :: "SoundPack option \<Rightarrow> json" where
  "encodePackOrNull None = JNull"
| "encodePackOrNull (Some p) = encodePack p"

text \<open>
  The entries on which \<open>normalizePath\<close> throws, said without running it: \<open>null\<close>; an
  entry whose raw path (the entry itself when it is a string, its \<open>path\<close> otherwise) is
  truthy and not a string; and an entry whose raw path is a non-empty string that starts
  neither with \<open>/\<close> nor with \<open>~\<close> when the base directory is not a string.
\<close>

definition relativePath :: "string \<Rightarrow> bool" where
  "relativePath s = (s \<noteq> [] \<and> \<not> startsWith s ''/'' \<and> \<not> startsWith s ''~'')"

fun isString :: "json \<Rightarrow> bool" where
  "isString (JStr s) = True"
| "isString v = False"

fun isNumber :: "json \<Rightarrow> bool" where
  "isNumber (JNum n) = True"
| "isNumber v = False"

definition entryThrows :: "json \<Rightarrow> json \<Rightarrow> bool" where
  "entryThrows dir entry =
     (case entry of
        JNull \<Rightarrow> True
      | JStr s \<Rightarrow> relativePath s \<and> \<not> isString dir
      | _ \<Rightarrow>
          (case member entry ''path'' of
             None \<Rightarrow> False
           | Some (JStr r) \<Rightarrow> relativePath r \<and> \<not> isString dir
           | Some raw \<Rightarrow> truthy raw))"

text \<open>
  The entries that the loop over \<open>pack.opencode[name]\<close> visits, and the documents on which
  one of the two loops meets an entry on which \<open>normalizePath\<close> throws.
\<close>

definition sectionEntries :: "json \<Rightarrow> string \<Rightarrow> (string \<times> json) list" where
  "sectionEntries pack name =
     (case optMember (optMember (Some pack) ''opencode'') name of
        None \<Rightarrow> []
      | Some sec \<Rightarrow>
          if truthy sec then (case objectEntries sec of Inl e \<Rightarrow> [] | Inr kvs \<Rightarrow> kvs) else [])"

definition throwsOn :: "json \<Rightarrow> bool" where
  "throwsOn pack =
     list_ex (\<lambda>(key, entry). entryThrows (resolvedBaseDir_js pack) entry)
       (sectionEntries pack ''events'' @ sectionEntries pack ''hooks'')"

text \<open>
  A document has the declared type \<open>SoundPack\<close> when it is an object in which each of
  \<open>$schema\<close>, \<open>version\<close>, \<open>baseDir\<close>, \<open>opencode\<close> and \<open>claude\<close> is absent or has its
  declared type. The order of the keys is free and further keys are allowed, in the
  document and in every object inside it.
\<close>

fun holdsIfPresent :: "(json \<Rightarrow> bool) \<Rightarrow> json option \<Rightarrow> bool" where
  "holdsIfPresent P None = True"
| "holdsIfPresent P (Some v) = P v"

definition isSoundEntry :: "json \<Rightarrow> bool" where
  "isSoundEntry e =
     (case e of
        JStr s \<Rightarrow> True
      | JObj props \<Rightarrow> isString (case map_of props ''path'' of None \<Rightarrow> JNull | Some v \<Rightarrow> v)
      | _ \<Rightarrow> False)"

definition isEntryRecord :: "json \<Rightarrow> bool" where
  "isEntryRecord v =
     (case v of JObj kvs \<Rightarrow> list_all (\<lambda>(key, entry). isSoundEntry entry) kvs | _ \<Rightarrow> False)"

definition isOpencode :: "json \<Rightarrow> bool" where
  "isOpencode v =
     (case v of
        JObj kvs \<Rightarrow> holdsIfPresent isEntryRecord (map_of kvs ''events'') \<and>
                    holdsIfPresent isEntryRecord (map_of kvs ''hooks'')
      | _ \<Rightarrow> False)"

definition isClaude :: "json \<Rightarrow> bool" where
  "isClaude v =
     (case v of JObj kvs \<Rightarrow> list_all (\<lambda>(key, r). isEntryRecord r) kvs | _ \<Rightarrow> False)"

definition hasSoundPackType :: "json \<Rightarrow> bool" where
  "hasSoundPackType doc =
     (case doc of
        JObj kvs \<Rightarrow> holdsIfPresent isString (map_of kvs ''$schema'') \<and>
                    holdsIfPresent isNumber (map_of kvs ''version'') \<and>
                    holdsIfPresent isString (map_of kvs ''baseDir'') \<and>
                    holdsIfPresent isOpencode (map_of kvs ''opencode'') \<and>
                    holdsIfPresent isClaude (map_of kvs ''claude'')
      | _ \<Rightarrow> False)"

text \<open>The typed pack that a document of the declared type stands for.\<close>

fun stringOf :: "json option \<Rightarrow> string option" where
  "stringOf (Some (JStr s)) = Some s"
| "stringOf v = None"

fun numberOf :: "json option \<Rightarrow> rat option" where
  "numberOf (Some (JNum n)) = Some n"
| "numberOf v = None"

definition decodeEntry :: "json \<Rightarrow> SoundEntry" where
  "decodeEntry e =
     (case e of
        JStr s \<Rightarrow> EntryString s
      | _ \<Rightarrow> EntryObject (case stringOf (member e ''path'') of None \<Rightarrow> [] | Some p \<Rightarrow> p))"

definition decodeRecord :: "json \<Rightarrow> EntryRecord" where
  "decodeRecord v =
     (case v of JObj kvs \<Rightarrow> map (\<lambda>(key, entry). (key, decodeEntry entry)) kvs | _ \<Rightarrow> [])"

definition decodeOpencode :: "json \<Rightarrow> Opencode" where
  "decodeOpencode v =
     \<lparr>oc_events = map_option decodeRecord (member v ''events''),
      oc_hooks = map_option decodeRecord (member v ''hooks'')\<rparr>"

definition decodeClaude :: "json \<Rightarrow> (string \<times> EntryRecord) list" where
  "decodeClaude v =
     (case v of JObj kvs \<Rightarrow> map (\<lambda>(key, r). (key, decodeRecord r)) kvs | _ \<Rightarrow> [])"

definition decodePack :: "json \<Rightarrow> SoundPack" where
  "decodePack doc =
     \<lparr>schema = stringOf (member doc ''$schema''),
      version = numberOf (member doc ''version''),
      baseDir = stringOf (member doc ''baseDir''),
      opencode = map_option decodeOpencode (member doc ''opencode''),
      claude = map_option decodeClaude (member doc ''claude'')\<rparr>"

section \<open>Loading the pack\<close>

text \<open>
  The replacement text of \<open>p.replace(/^~/, home)\<close>. The match is the \<open>~\<close> at position 0,
  there are no capture groups, and \<open>rest\<close> is what follows the match. In the replacement
  \<open>$$\<close> stands for \<open>$\<close>, \<open>$&\<close> for the match, \<open>$`\<close> for the text before the match
  (empty) and \<open>$'\<close> for the text after it; every other character stands for itself.
\<close>

fun substitution :: "string \<Rightarrow> string \<Rightarrow> string" where
  "substitution rest [] = []"
| "substitution rest [c] = [c]"
| "substitution rest (c # d # r) =
     (if c = CHR ''$'' \<and> d = CHR ''$'' then CHR ''$'' # substitution rest r
      else if c = CHR ''$'' \<and> d = CHR ''&'' then CHR ''~'' # substitution rest r
      else if c = CHR ''$'' \<and> d = CHR 0x60 then substitution rest r
      else if c = CHR ''$'' \<and> d = CHR 0x27 then rest @ substitution rest r
      else c # substitution rest (d # r))"

text \<open>\<open>home\<close> is \<open>process.env.HOME\<close>, \<open>None\<close> when it is not set.\<close>

definition expandTilde :: "string option \<Rightarrow> string \<Rightarrow> string" where
  "expandTilde home p =
     (if startsWith p ''~''
      then (case home of
              None \<Rightarrow> p
            | Some h \<Rightarrow> if h \<noteq> [] then substitution (tl p) h @ tl p else p)
      else p)"

text \<open>
  The files: what \<open>await Bun.file(path).json()\<close> yields for a path, the parsed document
  or the exception (no such file, not readable, not JSON).
\<close>

type_synonym files = "string \<Rightarrow> error + json"

text \<open>
  Every exception of the loop body is caught and the loop goes on; \<open>JNull\<close> is the final
  \<open>return null\<close>.
\<close>

fun loadSoundPack :: "string option \<Rightarrow> files \<Rightarrow> string list \<Rightarrow> error + json" where
  "loadSoundPack home fs [] = Inr JNull"
| "loadSoundPack home fs (p # ps) =
     (case fs (expandTilde home p) of
        Inl e \<Rightarrow> loadSoundPack home fs ps
      | Inr data \<Rightarrow>
          if truthy data \<and> typeof data = ''object'' then Inr data
          else loadSoundPack home fs ps)"

text \<open>The start of \<open>MyPlugin\<close>: load, then build.\<close>

definition resolveConfig :: "string option \<Rightarrow> files \<Rightarrow> string list \<Rightarrow> error + SoundConfig" where
  "resolveConfig home fs paths =
     (case loadSoundPack home fs paths of
        Inl e \<Rightarrow> Inl e
      | Inr pack \<Rightarrow> buildConfigFromPack_js pack)"

text \<open>A candidate that yields the pack: it reads, parses, and is a non-null object.\<close>

definition yieldsPack :: "string option \<Rightarrow> files \<Rightarrow> string \<Rightarrow> bool" where
  "yieldsPack home fs p =
     (case fs (expandTilde home p) of
        Inl e \<Rightarrow> False
      | Inr data \<Rightarrow> data \<noteq> JNull \<and> (case data of JObj kvs \<Rightarrow> True | JArr xs \<Rightarrow> True | _ \<Rightarrow> False))"

section \<open>Playback\<close>

text \<open>\<open>fullPath.split("/")\<close>\<close>

fun splitSlash :: "string \<Rightarrow> string list" where
  "splitSlash [] = [[]]"
| "splitSlash (c # cs) =
     (if c = CHR ''/'' then [] # splitSlash cs
      else (c # hd (splitSlash cs)) # tl (splitSlash cs))"

text \<open>The loop over the prefixes: the rest of the path after the first prefix that matches.\<close>

fun stripPrefix :: "string list \<Rightarrow> string \<Rightarrow> string option" where
  "stripPrefix [] fullPath = None"
| "stripPrefix (pre # pres) fullPath =
     (if startsWith fullPath pre then Some (drop (length pre) fullPath)
      else stripPrefix pres fullPath)"

definition toClodArg :: "string option \<Rightarrow> string \<Rightarrow> string" where
  "toClodArg env_home fullPath =
     (let home = (case env_home of None \<Rightarrow> [] | Some h \<Rightarrow> h);
          prefixes = ''~/.claude/sounds/'' #
                     (if home \<noteq> [] then [home @ ''/.claude/sounds/''] else [])
      in case stripPrefix prefixes fullPath of
           Some name \<Rightarrow> name
         | None \<Rightarrow>
             (let parts = splitSlash fullPath in
              if last parts \<noteq> [] then last parts else fullPath))"

text \<open>The part of a path after its last \<open>/\<close> (the whole path when it has none).\<close>

definition finalSegment :: "string \<Rightarrow> string" where
  "finalSegment s = rev (takeWhile (\<lambda>c. c \<noteq> CHR ''/'') (rev s))"

text \<open>
  A playback request is the command that \<open>playSound\<close> runs, word by word. The full plugin
  runs \<open>clod sfx play ${arg} &\<close>, the simple one \<open>clod sfx play ${path}\<close>.
\<close>

definition playSound :: "string option \<Rightarrow> string \<Rightarrow> string list" where
  "playSound env_home path = [''clod'', ''sfx'', ''play'', toClodArg env_home path, ''&'']"

definition playSound_sfx :: "string \<Rightarrow> string list" where
  "playSound_sfx path = [''clod'', ''sfx'', ''play'', path]"

section \<open>Event dispatch\<close>

text \<open>
  Both handlers are given the function that stands for \<open>playSound\<close> and return its calls
  in order. The handler of the full plugin looks the event type up in
  \<open>soundConfig.events\<close>.
\<close>

definition event :: "(string \<Rightarrow> 'r) \<Rightarrow> SoundConfig \<Rightarrow> string \<Rightarrow> 'r list" where
  "event play soundConfig ty =
     (case pathOf (getProp (events soundConfig) ty) of
        None \<Rightarrow> []
      | Some path \<Rightarrow> if path \<noteq> [] then [play path] else [])"

text \<open>
  The handler of \<open>sfx.ts\<close> goes through \<open>Object.entries(soundConfig)\<close> and plays every
  entry whose key is the event type.
\<close>

fun playMatching :: "(string \<Rightarrow> 'r) \<Rightarrow> (string \<times> string) list \<Rightarrow> string \<Rightarrow> 'r list" where
  "playMatching play [] ty = []"
| "playMatching play ((key, path) # rest) ty =
     (if ty = key then play path # playMatching play rest ty
      else playMatching play rest ty)"

definition event_sfx :: "(string \<Rightarrow> 'r) \<Rightarrow> PathObject \<Rightarrow> string \<Rightarrow> 'r list" where
  "event_sfx play soundConfig ty = playMatching play (own soundConfig) ty"

text \<open>The configuration written into \<open>sfx.ts\<close>, which is also the default of the resolver.\<close>

definition defaultEvents :: PathObject where
  "defaultEvents = \<lparr>own = [(''session.idle'', ''~/.claude/sounds/mew.wav'')], proto = None\<rparr>"

section \<open>Example packs and invariants\<close>

text \<open>Every path that a lookup in the object can find is a non-empty string.\<close>

definition nonemptyPaths :: "PathObject \<Rightarrow> bool" where
  "nonemptyPaths obj = ((\<forall>kv \<in> set (own obj). snd kv \<noteq> []) \<and> proto obj \<noteq> Some [])"

text \<open>A pack that has an \<open>opencode.events\<close> section and nothing else.\<close>

definition eventsPack :: "EntryRecord \<Rightarrow> SoundPack" where
  "eventsPack es =
     \<lparr>schema = None, version = None, baseDir = None,
      opencode = Some \<lparr>oc_events = Some es, oc_hooks = None\<rparr>,
      claude = None\<rparr>"

text \<open>Three candidate files: one missing, one that is not an object, one pack.\<close>

definition exampleFiles :: files where
  "exampleFiles path =
     (if path = ''/proj/.opencode/soundpack.json'' then Inl ReadError
      else if path = ''/cfg/soundpack.json'' then Inr (JStr ''not a pack'')
      else if path = ''/home/me/.claude/soundpack.json''
      then Inr (JObj [(''baseDir'', JStr ''/snd'')])
      else Inl ReadError)"

text \<open>A pack with an empty entry in each section and one sound.\<close>

definition mixedPack :: SoundPack where
  "mixedPack =
     \<lparr>schema = None, version = None, baseDir = None,
      opencode = Some \<lparr>oc_events = Some [(''foo'', EntryObject []), (''bar'', EntryString ''b.wav'')],
                       oc_hooks = Some [(''permission.ask'', EntryString [])]\<rparr>,
      claude = None\<rparr>"


text \<open>A project pack with a \<open>null\<close> entry, and a user pack that is the \<open>/snd\<close> pack.\<close>

definition nullEntryFiles :: files where
  "nullEntryFiles path =
     (if path = ''/proj/.opencode/soundpack.json''
      then Inr (JObj [(''opencode'', JObj [(''events'', JObj [(''session.idle'', JNull)])])])
      else Inl ReadError)"

definition sndFiles :: files where
  "sndFiles path =
     (if path = ''/cfg/soundpack.json'' then Inr (encodePack sndPack) else Inl SyntaxError)"

text \<open>
  A pack of the declared type with its keys in another order and with further keys, and
  a document that is not of the declared type on which nothing throws.
\<close>

definition reorderedDoc :: json where
  "reorderedDoc =
     JObj [(''name'', JStr ''cats''),
           (''opencode'',
            JObj [(''hooks'', JObj []),
                  (''events'',
                   JObj [(''session.idle'', JObj [(''volume'', JNum 1), (''path'', JStr ''mew.wav'')])])]),
           (''baseDir'', JStr ''/snd'')]"

definition looseDoc :: json where
  "looseDoc =
     JObj [(''baseDir'', JNum 7),
           (''opencode'', JObj [(''events'', JArr [JStr ''/abs/a.wav'', JBool True, JNum 3]),
                                (''hooks'', JNum 5)])]"

section \<open>Properties of normalization\<close>

lemma normalizePath_empty: "rawPath entry = [] \<Longrightarrow> normalizePath dir entry = []"
  by (simp add: normalizePath_def)

lemma normalizePath_nonempty: "rawPath entry \<noteq> [] \<Longrightarrow> normalizePath dir entry \<noteq> []"
  by (simp add: normalizePath_def Let_def)

lemma normalizePath_empty_iff: "normalizePath dir entry = [] \<longleftrightarrow> rawPath entry = []"
  using normalizePath_empty normalizePath_nonempty by blast

text \<open>
  C4. For every base directory and every entry whose raw path starts with \<open>/\<close> or with
  \<open>~\<close>, \<open>normalizePath\<close> returns the raw path unchanged.
\<close>

theorem normalizePath_absolute_identity:
  "startsWith (rawPath entry) ''/'' \<or> startsWith (rawPath entry) ''~'' \<Longrightarrow>
   normalizePath dir entry = rawPath entry"
  by (auto simp: normalizePath_def startsWith_def Let_def)

theorem normalizePath_absolute_identity_witness:
  "normalizePath ''/snd'' (EntryObject ''~/music/a.wav'') = ''~/music/a.wav'' \<and>
   normalizePath ''/snd'' (EntryString ''/opt/b.wav'') = ''/opt/b.wav''"
  using normalizePath_absolute_identity [of "EntryObject ''~/music/a.wav''" "''/snd''"]
    normalizePath_absolute_identity [of "EntryString ''/opt/b.wav''" "''/snd''"]
  by (simp add: startsWith_def)

text \<open>
  C3. For every base directory and every entry whose raw path \<open>p\<close> is not empty and
  starts neither with \<open>/\<close> nor with \<open>~\<close>, \<open>normalizePath\<close> returns the base
  directory and \<open>p\<close> joined by one \<open>/\<close>: \<open>baseDir + p\<close> when the base directory
  already ends with \<open>/\<close>, and \<open>baseDir + "/" + p\<close> otherwise; in both cases this is the
  base directory without its final \<open>/\<close>, if it has one, then \<open>/\<close>, then \<open>p\<close>. The pack
  \<open>{baseDir: "/snd", opencode: {events: {"session.idle": "mew.wav"}}}\<close> resolves to an
  \<open>events\<close> object whose only property is \<open>session.idle\<close> with path \<open>/snd/mew.wav\<close>.
\<close>

theorem normalizePath_relative_join:
  "(rawPath entry \<noteq> [] \<and> \<not> startsWith (rawPath entry) ''/'' \<and>
      \<not> startsWith (rawPath entry) ''~'' \<longrightarrow>
    normalizePath dir entry =
      (if endsWith dir ''/'' then dir @ rawPath entry else dir @ ''/'' @ rawPath entry) \<and>
    normalizePath dir entry =
      (if endsWith dir ''/'' then butlast dir else dir) @ ''/'' @ rawPath entry) \<and>
   events (buildConfigFromPack (Some sndPack)) =
     \<lparr>own = [(''session.idle'', ''/snd/mew.wav'')], proto = None\<rparr> \<and>
   pathOf (getProp (events (buildConfigFromPack (Some sndPack))) ''session.idle'') =
     Some ''/snd/mew.wav''"
proof -
  have ev: "normalizedEvents (Some sndPack) =
      \<lparr>own = [(''session.idle'', ''/snd/mew.wav'')], proto = None\<rparr>"
    by (simp add: normalizedEvents_def packEvents_def resolvedBaseDir_def sndPack_def
        normalizePath_def startsWith_def endsWith_def suffix_to_prefix setProp_def
        emptyObject_def)
  have cfg: "events (buildConfigFromPack (Some sndPack)) =
      \<lparr>own = [(''session.idle'', ''/snd/mew.wav'')], proto = None\<rparr>"
    by (simp add: buildConfigFromPack_def ev)
  have join: "(if endsWith dir ''/'' then dir @ raw else dir @ ''/'' @ raw) =
      (if endsWith dir ''/'' then butlast dir else dir) @ ''/'' @ raw" for raw
    by (auto simp: endsWith_def suffix_def)
  have rel: "normalizePath dir entry =
      (if endsWith dir ''/'' then dir @ rawPath entry else dir @ ''/'' @ rawPath entry)"
    if "rawPath entry \<noteq> [] \<and> \<not> startsWith (rawPath entry) ''/'' \<and>
      \<not> startsWith (rawPath entry) ''~''"
    using that by (simp add: normalizePath_def Let_def)
  show ?thesis
    using rel join [of "rawPath entry"] by (simp add: cfg getProp_def)
qed

theorem normalizePath_relative_join_witness:
  "normalizePath ''/snd/'' (EntryString ''mew.wav'') = ''/snd/mew.wav'' \<and>
   normalizePath ''/snd'' (EntryObject ''mew.wav'') = ''/snd/mew.wav''"
proof -
  have a: "rawPath (EntryString ''mew.wav'') \<noteq> [] \<and>
      \<not> startsWith (rawPath (EntryString ''mew.wav'')) ''/'' \<and>
      \<not> startsWith (rawPath (EntryString ''mew.wav'')) ''~''"
    by (simp add: startsWith_def)
  have b: "rawPath (EntryObject ''mew.wav'') \<noteq> [] \<and>
      \<not> startsWith (rawPath (EntryObject ''mew.wav'')) ''/'' \<and>
      \<not> startsWith (rawPath (EntryObject ''mew.wav'')) ''~''"
    by (simp add: startsWith_def)
  from a normalizePath_relative_join [of "EntryString ''mew.wav''" "''/snd/''"]
  have "normalizePath ''/snd/'' (EntryString ''mew.wav'') =
      (if endsWith ''/snd/'' ''/'' then ''/snd/'' @ rawPath (EntryString ''mew.wav'')
       else ''/snd/'' @ ''/'' @ rawPath (EntryString ''mew.wav''))"
    by blast
  moreover from b normalizePath_relative_join [of "EntryObject ''mew.wav''" "''/snd''"]
  have "normalizePath ''/snd'' (EntryObject ''mew.wav'') =
      (if endsWith ''/snd'' ''/'' then ''/snd'' @ rawPath (EntryObject ''mew.wav'')
       else ''/snd'' @ ''/'' @ rawPath (EntryObject ''mew.wav''))"
    by blast
  ultimately show ?thesis
    by (simp add: endsWith_def suffix_to_prefix)
qed

section \<open>Properties of the loop over a section\<close>

lemma setProp_keys:
  "fst ` set (own (setProp k v obj)) =
     (if k = ''__proto__'' then {} else {k}) \<union> fst ` set (own obj)"
  by (simp add: setProp_def AList.dom_update)

lemma addEntries_keys:
  "fst ` set (own (addEntries dir es obj)) =
     fst ` set (own obj) \<union>
     {k. k \<noteq> ''__proto__'' \<and> (\<exists>e. (k, e) \<in> set es \<and> rawPath e \<noteq> [])}"
proof (induction es arbitrary: obj)
  case Nil
  then show ?case by simp
next
  case (Cons a es)
  obtain k e where a: "a = (k, e)" by (cases a)
  show ?case
    unfolding a using Cons.IH by (auto simp: Let_def setProp_keys normalizePath_empty_iff)
qed

lemma addEntries_proto_unchanged:
  "\<forall>e. (''__proto__'', e) \<in> set es \<longrightarrow> rawPath e = [] \<Longrightarrow>
   proto (addEntries dir es obj) = proto obj"
proof (induction es arbitrary: obj)
  case Nil
  then show ?case by simp
next
  case (Cons a es)
  obtain k e where a: "a = (k, e)" by (cases a)
  show ?case
    using Cons unfolding a by (auto simp: Let_def setProp_def normalizePath_empty_iff)
qed

lemma set_update_subset: "set (AList.update k v al) \<subseteq> insert (k, v) (set al)"
  by (induction al) auto

lemma nonemptyPaths_setProp:
  "nonemptyPaths obj \<Longrightarrow> v \<noteq> [] \<Longrightarrow> nonemptyPaths (setProp k v obj)"
  using set_update_subset [of k v "own obj"]
  by (auto simp: nonemptyPaths_def setProp_def)

lemma nonemptyPaths_addEntries:
  "nonemptyPaths obj \<Longrightarrow> nonemptyPaths (addEntries dir es obj)"
proof (induction es arbitrary: obj)
  case Nil
  then show ?case by simp
next
  case (Cons a es)
  obtain k e where a: "a = (k, e)" by (cases a)
  show ?case
    unfolding a using Cons by (auto simp: Let_def nonemptyPaths_setProp)
qed

lemma distinct_setProp:
  "distinct (map fst (own obj)) \<Longrightarrow> distinct (map fst (own (setProp k v obj)))"
  by (simp add: setProp_def AList.distinct_update)

lemma distinct_addEntries:
  "distinct (map fst (own obj)) \<Longrightarrow> distinct (map fst (own (addEntries dir es obj)))"
proof (induction es arbitrary: obj)
  case Nil
  then show ?case by simp
next
  case (Cons a es)
  obtain k e where a: "a = (k, e)" by (cases a)
  show ?case
    unfolding a using Cons by (auto simp: Let_def distinct_setProp)
qed

section \<open>Properties of the resolved configuration\<close>

lemma normalizedEvents_keys:
  "fst ` set (own (normalizedEvents pack)) =
     {k. k \<noteq> ''__proto__'' \<and> (\<exists>es e. packEvents pack = Some es \<and> (k, e) \<in> set es \<and> rawPath e \<noteq> [])}"
  by (auto simp: normalizedEvents_def addEntries_keys emptyObject_def split: option.splits)

lemma normalizedHooks_keys:
  "fst ` set (own (normalizedHooks pack)) =
     {k. k \<noteq> ''__proto__'' \<and> (\<exists>hs e. packHooks pack = Some hs \<and> (k, e) \<in> set hs \<and> rawPath e \<noteq> [])}"
  by (auto simp: normalizedHooks_def addEntries_keys emptyObject_def split: option.splits)

lemma nonemptyPaths_emptyObject: "nonemptyPaths emptyObject"
  by (simp add: nonemptyPaths_def emptyObject_def)

lemma nonemptyPaths_normalizedEvents: "nonemptyPaths (normalizedEvents pack)"
  by (simp add: normalizedEvents_def nonemptyPaths_addEntries nonemptyPaths_emptyObject split: option.splits)

lemma nonemptyPaths_normalizedHooks: "nonemptyPaths (normalizedHooks pack)"
  by (simp add: normalizedHooks_def nonemptyPaths_addEntries nonemptyPaths_emptyObject split: option.splits)

lemma distinct_normalizedEvents: "distinct (map fst (own (normalizedEvents pack)))"
  by (simp add: normalizedEvents_def distinct_addEntries emptyObject_def split: option.splits)

lemma default_path: "DEFAULT_BASE_DIR @ ''/mew.wav'' = ''~/.claude/sounds/mew.wav''"
  by (simp add: DEFAULT_BASE_DIR_def)

lemma events_buildConfigFromPack:
  "events (buildConfigFromPack pack) =
     (if own (normalizedEvents pack) = [] \<and> own (normalizedHooks pack) = []
      then setProp ''session.idle'' ''~/.claude/sounds/mew.wav'' (normalizedEvents pack)
      else normalizedEvents pack)"
  by (simp add: buildConfigFromPack_def Let_def default_path)

lemma hooks_buildConfigFromPack: "hooks (buildConfigFromPack pack) = normalizedHooks pack"
  by (simp add: buildConfigFromPack_def Let_def)

lemma nonemptyPaths_buildConfigFromPack:
  "nonemptyPaths (events (buildConfigFromPack pack)) \<and> nonemptyPaths (hooks (buildConfigFromPack pack))"
  by (simp add: events_buildConfigFromPack hooks_buildConfigFromPack
      nonemptyPaths_normalizedEvents nonemptyPaths_normalizedHooks nonemptyPaths_setProp)

lemma distinct_buildConfigFromPack:
  "distinct (map fst (own (events (buildConfigFromPack pack))))"
  by (simp add: events_buildConfigFromPack distinct_normalizedEvents distinct_setProp)

text \<open>
  C9. Two packs that differ only in their \<open>claude\<close> section resolve to the same
  configuration: \<open>buildConfigFromPack\<close> does not read that section.
\<close>

theorem claude_ignored:
  "buildConfigFromPack (Some (p\<lparr>claude := c\<rparr>)) = buildConfigFromPack (Some p)"
proof -
  have b: "resolvedBaseDir (Some (p\<lparr>claude := c\<rparr>)) = resolvedBaseDir (Some p)"
    by (simp add: resolvedBaseDir_def)
  have e: "packEvents (Some (p\<lparr>claude := c\<rparr>)) = packEvents (Some p)"
    by (simp add: packEvents_def)
  have h: "packHooks (Some (p\<lparr>claude := c\<rparr>)) = packHooks (Some p)"
    by (simp add: packHooks_def)
  show ?thesis
    unfolding buildConfigFromPack_def normalizedEvents_def normalizedHooks_def b e h ..
qed



section \<open>Properties of loading\<close>

lemma object_test:
  "(truthy data \<and> typeof data = ''object'') =
     (data \<noteq> JNull \<and> (case data of JObj kvs \<Rightarrow> True | JArr xs \<Rightarrow> True | _ \<Rightarrow> False))"
  by (cases data) simp_all

lemma loadSoundPack_Cons:
  "loadSoundPack home fs (p # ps) =
     (if yieldsPack home fs p then fs (expandTilde home p) else loadSoundPack home fs ps)"
  by (simp add: yieldsPack_def object_test split: sum.splits)

lemma loadSoundPack_skip:
  "\<forall>q \<in> set pre. \<not> yieldsPack home fs q \<Longrightarrow>
   loadSoundPack home fs (pre @ ps) = loadSoundPack home fs ps"
  by (induction pre) (simp_all add: loadSoundPack_Cons del: loadSoundPack.simps(2))

lemma loadSoundPack_none:
  "\<forall>q \<in> set ps. \<not> yieldsPack home fs q \<Longrightarrow> loadSoundPack home fs ps = Inr JNull"
  using loadSoundPack_skip [of ps home fs "[]"] by simp

lemma loadSoundPack_returns: "\<exists>r. loadSoundPack home fs ps = Inr r"
  by (induction ps) (auto split: sum.splits)

lemma buildConfigFromPack_js_null:
  "buildConfigFromPack_js JNull = Inr \<lparr>events = defaultEvents, hooks = emptyObject\<rparr>"
  by (simp add: buildConfigFromPack_js_def normalizedSection_js_def emptyObject_def setProp_def
      DEFAULT_BASE_DIR_def defaultEvents_def)

lemma buildConfigFromPack_None:
  "buildConfigFromPack None = \<lparr>events = defaultEvents, hooks = emptyObject\<rparr>"
  by (simp add: buildConfigFromPack_def normalizedEvents_def normalizedHooks_def packEvents_def
      packHooks_def emptyObject_def setProp_def DEFAULT_BASE_DIR_def defaultEvents_def)

text \<open>
  C6. For every list of candidate paths, \<open>loadSoundPack\<close> returns the document of the first
  candidate that reads and parses to a non-null object; the candidates before it, which
  are missing, unreadable or malformed, are skipped. It returns \<open>null\<close> when no candidate
  succeeds, and in no case does it end in an exception.
\<close>

theorem loadSoundPack_first_success:
  "((\<forall>q \<in> set pre. \<not> yieldsPack home fs q) \<and> yieldsPack home fs p \<and>
      fs (expandTilde home p) = Inr d \<longrightarrow>
    loadSoundPack home fs (pre @ p # post) = Inr d) \<and>
   ((\<forall>q \<in> set ps. \<not> yieldsPack home fs q) \<longrightarrow> loadSoundPack home fs ps = Inr JNull) \<and>
   (\<forall>e. loadSoundPack home fs ps \<noteq> Inl e)"
proof (intro conjI impI allI)
  assume a: "(\<forall>q \<in> set pre. \<not> yieldsPack home fs q) \<and> yieldsPack home fs p \<and>
      fs (expandTilde home p) = Inr d"
  then have "loadSoundPack home fs (pre @ p # post) = loadSoundPack home fs (p # post)"
    using loadSoundPack_skip by blast
  also have "\<dots> = Inr d"
    using a by (simp add: loadSoundPack_Cons del: loadSoundPack.simps(2))
  finally show "loadSoundPack home fs (pre @ p # post) = Inr d" .
next
  assume "\<forall>q \<in> set ps. \<not> yieldsPack home fs q"
  then show "loadSoundPack home fs ps = Inr JNull" by (rule loadSoundPack_none)
next
  fix e
  show "loadSoundPack home fs ps \<noteq> Inl e"
    using loadSoundPack_returns [of home fs ps] by auto
qed

theorem loadSoundPack_first_success_witness:
  "loadSoundPack (Some ''/home/me'') exampleFiles
     [''/proj/.opencode/soundpack.json'', ''/cfg/soundpack.json'', ''~/.claude/soundpack.json'']
     = Inr (JObj [(''baseDir'', JStr ''/snd'')]) \<and>
   loadSoundPack (Some ''/home/me'') exampleFiles
     [''/proj/.opencode/soundpack.json'', ''/cfg/soundpack.json''] = Inr JNull"
proof -
  let ?h = "Some ''/home/me''"
  let ?pre = "[''/proj/.opencode/soundpack.json'', ''/cfg/soundpack.json'']"
  have x: "expandTilde ?h ''~/.claude/soundpack.json'' = ''/home/me/.claude/soundpack.json''"
    by (simp add: expandTilde_def startsWith_def)
  have n: "\<forall>q \<in> set ?pre. \<not> yieldsPack ?h exampleFiles q"
    by (simp add: yieldsPack_def expandTilde_def startsWith_def exampleFiles_def)
  have r: "exampleFiles (expandTilde ?h ''~/.claude/soundpack.json'') =
      Inr (JObj [(''baseDir'', JStr ''/snd'')])"
    by (simp add: x exampleFiles_def)
  have y: "yieldsPack ?h exampleFiles ''~/.claude/soundpack.json''"
    by (simp add: yieldsPack_def r)
  from loadSoundPack_first_success
    [of ?pre ?h exampleFiles "''~/.claude/soundpack.json''" "JObj [(''baseDir'', JStr ''/snd'')]" "[]" ?pre]
    n y r
  show ?thesis by simp
qed

lemma normalizedEvents_empty_iff:
  "own (normalizedEvents pack) = [] \<longleftrightarrow>
     (\<forall>es k e. packEvents pack = Some es \<and> (k, e) \<in> set es \<longrightarrow>
        k = ''__proto__'' \<or> rawPath e = [])"
proof -
  have "own (normalizedEvents pack) = [] \<longleftrightarrow> fst ` set (own (normalizedEvents pack)) = {}"
    by simp
  also have "\<dots> \<longleftrightarrow> (\<forall>es k e. packEvents pack = Some es \<and> (k, e) \<in> set es \<longrightarrow>
        k = ''__proto__'' \<or> rawPath e = [])"
    unfolding normalizedEvents_keys by auto
  finally show ?thesis .
qed

text \<open>
  C1. For every pack, \<open>null\<close> included, whose \<open>events\<close> and \<open>hooks\<close> objects have no
  property after normalization, \<open>buildConfigFromPack\<close> returns a configuration whose
  \<open>hooks\<close> has no property and whose \<open>events\<close> has exactly one, \<open>session.idle\<close> with the
  path \<open>~/.claude/sounds/mew.wav\<close>. Without a pack the configuration is exactly this
  default, and when no candidate path yields a pack the resolution ends in it, so that
  \<open>events["session.idle"]\<close> is \<open>~/.claude/sounds/mew.wav\<close>.
\<close>

theorem default_when_nothing_configured:
  "(own (normalizedEvents pack) = [] \<and> own (normalizedHooks pack) = [] \<longrightarrow>
      own (events (buildConfigFromPack pack)) = [(''session.idle'', ''~/.claude/sounds/mew.wav'')] \<and>
      own (hooks (buildConfigFromPack pack)) = []) \<and>
   buildConfigFromPack None = \<lparr>events = defaultEvents, hooks = emptyObject\<rparr> \<and>
   ((\<forall>q \<in> set paths. \<not> yieldsPack home fs q) \<longrightarrow>
      resolveConfig home fs paths = Inr \<lparr>events = defaultEvents, hooks = emptyObject\<rparr>) \<and>
   pathOf (getProp defaultEvents ''session.idle'') = Some ''~/.claude/sounds/mew.wav''"
proof (intro conjI impI)
  assume "own (normalizedEvents pack) = [] \<and> own (normalizedHooks pack) = []"
  then show "own (events (buildConfigFromPack pack)) =
      [(''session.idle'', ''~/.claude/sounds/mew.wav'')]"
    by (simp add: events_buildConfigFromPack setProp_def)
next
  assume "own (normalizedEvents pack) = [] \<and> own (normalizedHooks pack) = []"
  then show "own (hooks (buildConfigFromPack pack)) = []"
    by (simp add: hooks_buildConfigFromPack)
next
  show "buildConfigFromPack None = \<lparr>events = defaultEvents, hooks = emptyObject\<rparr>"
    by (rule buildConfigFromPack_None)
next
  assume "\<forall>q \<in> set paths. \<not> yieldsPack home fs q"
  then show "resolveConfig home fs paths = Inr \<lparr>events = defaultEvents, hooks = emptyObject\<rparr>"
    by (simp add: resolveConfig_def loadSoundPack_none buildConfigFromPack_js_null)
next
  show "pathOf (getProp defaultEvents ''session.idle'') = Some ''~/.claude/sounds/mew.wav''"
    by (simp add: getProp_def defaultEvents_def)
qed



theorem default_when_nothing_configured_witness:
  "own (events (buildConfigFromPack (Some (eventsPack [(''foo'', EntryObject [])])))) =
     [(''session.idle'', ''~/.claude/sounds/mew.wav'')] \<and>
   own (hooks (buildConfigFromPack (Some (eventsPack [(''foo'', EntryObject [])])))) = [] \<and>
   resolveConfig None (\<lambda>path. Inl ReadError) [''/proj/.opencode/soundpack.json''] =
     Inr \<lparr>events = defaultEvents, hooks = emptyObject\<rparr>"
proof -
  let ?pack = "Some (eventsPack [(''foo'', EntryObject [])])"
  let ?fs = "\<lambda>path :: string. (Inl ReadError :: error + json)"
  have e: "own (normalizedEvents ?pack) = []"
    by (simp add: normalizedEvents_def packEvents_def eventsPack_def normalizePath_def
        emptyObject_def)
  have h: "own (normalizedHooks ?pack) = []"
    by (simp add: normalizedHooks_def packHooks_def eventsPack_def emptyObject_def)
  have n: "\<forall>q \<in> set [''/proj/.opencode/soundpack.json'']. \<not> yieldsPack None ?fs q"
    by (simp add: yieldsPack_def)
  from default_when_nothing_configured
    [of ?pack "[''/proj/.opencode/soundpack.json'']" None ?fs] e h n
  show ?thesis by simp
qed

section \<open>Properties of playback\<close>

lemma splitSlash_nonempty: "splitSlash s \<noteq> []"
  by (induction s) auto

lemma splitSlash_no_slash: "CHR ''/'' \<notin> set b \<Longrightarrow> splitSlash b = [b]"
  by (induction b) auto

lemma splitSlash_last_slash:
  "CHR ''/'' \<notin> set b \<Longrightarrow> splitSlash (a @ CHR ''/'' # b) = splitSlash a @ [b]"
proof (induction a)
  case Nil
  then show ?case by (simp add: splitSlash_no_slash)
next
  case (Cons c a)
  then show ?case using splitSlash_nonempty [of a] by simp
qed

lemma takeWhile_rev_no_slash:
  "CHR ''/'' \<notin> set b \<Longrightarrow> takeWhile (\<lambda>c. c \<noteq> CHR ''/'') (rev b) = rev b"
  by (rule iffD2 [OF takeWhile_eq_all_conv]) auto

lemma finalSegment_no_slash: "CHR ''/'' \<notin> set b \<Longrightarrow> finalSegment b = b"
  by (simp add: finalSegment_def takeWhile_rev_no_slash)

lemma finalSegment_last_slash:
  "CHR ''/'' \<notin> set b \<Longrightarrow> finalSegment (a @ CHR ''/'' # b) = b"
proof -
  assume b: "CHR ''/'' \<notin> set b"
  have "takeWhile (\<lambda>c. c \<noteq> CHR ''/'') (rev b @ CHR ''/'' # rev a) =
      rev b @ takeWhile (\<lambda>c. c \<noteq> CHR ''/'') (CHR ''/'' # rev a)"
    using b by (intro takeWhile_append2) auto
  then show ?thesis by (simp add: finalSegment_def)
qed

lemma last_splitSlash: "last (splitSlash s) = finalSegment s"
proof (cases "CHR ''/'' \<in> set s")
  case True
  then obtain a b where s: "s = a @ CHR ''/'' # b" and b: "CHR ''/'' \<notin> set b"
    using split_list_last [of "CHR ''/''" s] by blast
  show ?thesis
    unfolding s using b by (simp add: splitSlash_last_slash finalSegment_last_slash)
next
  case False
  then show ?thesis by (simp add: splitSlash_no_slash finalSegment_no_slash)
qed

lemma startsWith_drop: "startsWith s p \<Longrightarrow> p @ drop (length p) s = s"
  by (auto simp: startsWith_def prefix_def)

lemma default_path_nonempty: "pathOf (getProp defaultEvents ''session.idle'') = Some ''~/.claude/sounds/mew.wav''"
  by (simp add: getProp_def defaultEvents_def)

text \<open>
  C7, as amended. The argument that \<open>playSound\<close> passes to the command is the path
  without the default sound directory in front (\<open>~/.claude/sounds/\<close>, or
  \<open>$HOME/.claude/sounds/\<close> when \<open>HOME\<close> is set and not empty) when the path starts with
  it; otherwise it is the part after the last \<open>/\<close> when that part is not empty, and the
  whole path when it is empty. An event \<open>session.idle\<close> under the default configuration
  runs exactly one command, \<open>clod sfx play mew.wav &\<close>.
\<close>

theorem toClodArg_strips_prefix_or_takes_segment:
  "(startsWith p ''~/.claude/sounds/'' \<longrightarrow> ''~/.claude/sounds/'' @ toClodArg env_home p = p) \<and>
   (env_home = Some h \<and> h \<noteq> [] \<and> \<not> startsWith p ''~/.claude/sounds/'' \<and>
      startsWith p (h @ ''/.claude/sounds/'') \<longrightarrow>
    h @ ''/.claude/sounds/'' @ toClodArg env_home p = p) \<and>
   (\<not> startsWith p ''~/.claude/sounds/'' \<and>
      (\<forall>h'. env_home = Some h' \<and> h' \<noteq> [] \<longrightarrow> \<not> startsWith p (h' @ ''/.claude/sounds/'')) \<longrightarrow>
    toClodArg env_home p = (if finalSegment p \<noteq> [] then finalSegment p else p)) \<and>
   event (playSound env_home) (buildConfigFromPack None) ''session.idle'' =
     [[''clod'', ''sfx'', ''play'', ''mew.wav'', ''&'']]"
proof (intro conjI impI)
  assume a: "startsWith p ''~/.claude/sounds/''"
  then have "toClodArg env_home p = drop (length ''~/.claude/sounds/'') p"
    by (simp add: toClodArg_def Let_def)
  with startsWith_drop [OF a] show "''~/.claude/sounds/'' @ toClodArg env_home p = p"
    by simp
next
  assume a: "env_home = Some h \<and> h \<noteq> [] \<and> \<not> startsWith p ''~/.claude/sounds/'' \<and>
      startsWith p (h @ ''/.claude/sounds/'')"
  then have "toClodArg env_home p = drop (length (h @ ''/.claude/sounds/'')) p"
    by (simp add: toClodArg_def Let_def)
  moreover have "(h @ ''/.claude/sounds/'') @ drop (length (h @ ''/.claude/sounds/'')) p = p"
    using a by (intro startsWith_drop) simp
  ultimately show "h @ ''/.claude/sounds/'' @ toClodArg env_home p = p"
    by simp
next
  assume a: "\<not> startsWith p ''~/.claude/sounds/'' \<and>
      (\<forall>h'. env_home = Some h' \<and> h' \<noteq> [] \<longrightarrow> \<not> startsWith p (h' @ ''/.claude/sounds/''))"
  then show "toClodArg env_home p = (if finalSegment p \<noteq> [] then finalSegment p else p)"
    by (cases env_home) (simp_all add: toClodArg_def Let_def last_splitSlash)
next
  have "toClodArg env_home ''~/.claude/sounds/mew.wav'' = ''mew.wav''"
    by (simp add: toClodArg_def Let_def startsWith_def)
  then show "event (playSound env_home) (buildConfigFromPack None) ''session.idle'' =
      [[''clod'', ''sfx'', ''play'', ''mew.wav'', ''&'']]"
    by (simp add: event_def buildConfigFromPack_None default_path_nonempty playSound_def)
qed

theorem toClodArg_strips_prefix_or_takes_segment_witness:
  "toClodArg (Some ''/home/me'') ''~/.claude/sounds/cat/purr.wav'' = ''cat/purr.wav'' \<and>
   toClodArg (Some ''/home/me'') ''/home/me/.claude/sounds/purr.wav'' = ''purr.wav'' \<and>
   toClodArg (Some ''/home/me'') ''/snd/purr.wav'' = ''purr.wav''"
proof -
  let ?h = "''/home/me''"
  note t = toClodArg_strips_prefix_or_takes_segment [where env_home = "Some ?h" and h = ?h]
  have a: "startsWith ''~/.claude/sounds/cat/purr.wav'' ''~/.claude/sounds/''"
    by (simp add: startsWith_def)
  have b: "Some ?h = Some ?h \<and> ?h \<noteq> [] \<and>
      \<not> startsWith ''/home/me/.claude/sounds/purr.wav'' ''~/.claude/sounds/'' \<and>
      startsWith ''/home/me/.claude/sounds/purr.wav'' (?h @ ''/.claude/sounds/'')"
    by (simp add: startsWith_def)
  have c: "\<not> startsWith ''/snd/purr.wav'' ''~/.claude/sounds/'' \<and>
      (\<forall>h'. Some ?h = Some h' \<and> h' \<noteq> [] \<longrightarrow>
         \<not> startsWith ''/snd/purr.wav'' (h' @ ''/.claude/sounds/''))"
    by (simp add: startsWith_def)
  have f: "finalSegment ''/snd/purr.wav'' = ''purr.wav''"
    by (simp add: finalSegment_def)
  from t [of "''~/.claude/sounds/cat/purr.wav''"] a
  have 1: "''~/.claude/sounds/'' @ toClodArg (Some ?h) ''~/.claude/sounds/cat/purr.wav'' =
      ''~/.claude/sounds/cat/purr.wav''"
    by simp
  from t [of "''/home/me/.claude/sounds/purr.wav''"] b
  have 2: "?h @ ''/.claude/sounds/'' @ toClodArg (Some ?h) ''/home/me/.claude/sounds/purr.wav'' =
      ''/home/me/.claude/sounds/purr.wav''"
    by simp
  from t [of "''/snd/purr.wav''"] c f
  have 3: "toClodArg (Some ?h) ''/snd/purr.wav'' = ''purr.wav''"
    by simp
  from 1 2 3 show ?thesis by simp
qed

text \<open>
  C7 as stated gives the final segment whenever no prefix matches. The entry \<open>/snd/\<close>
  is absolute and resolves to itself; no prefix matches it and its final segment is
  empty, but \<open>parts[parts.length - 1] || fullPath\<close> returns the whole path.
\<close>

theorem toClodArg_trailing_slash_counterexample:
  "normalizePath DEFAULT_BASE_DIR (EntryString ''/snd/'') = ''/snd/'' \<and>
   \<not> startsWith ''/snd/'' ''~/.claude/sounds/'' \<and>
   finalSegment ''/snd/'' = [] \<and>
   last (splitSlash ''/snd/'') = [] \<and>
   toClodArg None ''/snd/'' = ''/snd/''"
  by (simp add: startsWith_def finalSegment_def toClodArg_def normalizePath_def)

section \<open>Dropped entries\<close>

lemma events_buildConfigFromPack_keys:
  "fst ` set (own (events (buildConfigFromPack pack))) =
     (if own (normalizedEvents pack) = [] \<and> own (normalizedHooks pack) = []
      then {''session.idle''} else fst ` set (own (normalizedEvents pack)))"
  by (simp add: events_buildConfigFromPack setProp_keys)

lemma dropped_from_addEntries:
  assumes "distinct (map fst es)" and "(k, e) \<in> set es" and "rawPath e = []"
  shows "k \<notin> fst ` set (own (addEntries dir es emptyObject))"
    and "pathOf (getProp (addEntries dir es emptyObject) k) = None"
proof -
  have same: "e' = e" if "(k, e') \<in> set es" for e'
    using assms(1) that assms(2) by (rule eq_key_imp_eq_value)
  show notin: "k \<notin> fst ` set (own (addEntries dir es emptyObject))"
    unfolding addEntries_keys using same assms(3) by (auto simp: emptyObject_def)
  then have none: "map_of (own (addEntries dir es emptyObject)) k = None"
    by (simp add: map_of_eq_None_iff)
  show "pathOf (getProp (addEntries dir es emptyObject) k) = None"
  proof (cases "k = ''__proto__''")
    case True
    then have "\<forall>e'. (''__proto__'', e') \<in> set es \<longrightarrow> rawPath e' = []"
      using same assms(3) by auto
    then have "proto (addEntries dir es emptyObject) = None"
      by (simp add: addEntries_proto_unchanged emptyObject_def)
    then show ?thesis using none by (simp add: getProp_def)
  next
    case False
    then show ?thesis using none by (simp add: getProp_def split: option.splits)
  qed
qed

lemma pathOf_getProp_nonempty:
  "nonemptyPaths obj \<Longrightarrow> pathOf (getProp obj key) = Some path \<Longrightarrow> path \<noteq> []"
  by (auto simp: getProp_def nonemptyPaths_def split: option.splits if_splits dest!: map_of_SomeD)

text \<open>
  C5, as amended. For every pack whose sections have each key once: an entry whose raw
  path is empty is dropped, so its key is not a property of the resolved object and a
  lookup under it finds no path, except that the key \<open>session.idle\<close> is a property of
  \<open>events\<close>, with the default path, when both objects are empty after normalization.
  Every path that a lookup in \<open>events\<close> or \<open>hooks\<close> finds is a non-empty string. A pack
  with \<open>opencode.events["foo"] = {path: ""}\<close> has no \<open>foo\<close> in its resolved \<open>events\<close>.
\<close>

theorem empty_entries_dropped:
  "(packEvents pack = Some es \<and> distinct (map fst es) \<and> (k, e) \<in> set es \<and> rawPath e = [] \<and>
      \<not> (k = ''session.idle'' \<and> own (normalizedEvents pack) = [] \<and>
           own (normalizedHooks pack) = []) \<longrightarrow>
      k \<notin> fst ` set (own (events (buildConfigFromPack pack))) \<and>
      pathOf (getProp (events (buildConfigFromPack pack)) k) = None) \<and>
   (packHooks pack = Some hs \<and> distinct (map fst hs) \<and> (k, e) \<in> set hs \<and> rawPath e = [] \<longrightarrow>
      k \<notin> fst ` set (own (hooks (buildConfigFromPack pack))) \<and>
      pathOf (getProp (hooks (buildConfigFromPack pack)) k) = None) \<and>
   (pathOf (getProp (events (buildConfigFromPack pack)) key) = Some path \<longrightarrow> path \<noteq> []) \<and>
   (pathOf (getProp (hooks (buildConfigFromPack pack)) key) = Some path \<longrightarrow> path \<noteq> []) \<and>
   nonemptyPaths (events (buildConfigFromPack pack)) \<and>
   nonemptyPaths (hooks (buildConfigFromPack pack)) \<and>
   (packEvents pack = Some es \<and> distinct (map fst es) \<and> (''foo'', EntryObject []) \<in> set es \<longrightarrow>
      ''foo'' \<notin> fst ` set (own (events (buildConfigFromPack pack))))"
proof (intro conjI impI)
  assume a: "packEvents pack = Some es \<and> distinct (map fst es) \<and> (k, e) \<in> set es \<and>
      rawPath e = [] \<and>
      \<not> (k = ''session.idle'' \<and> own (normalizedEvents pack) = [] \<and>
           own (normalizedHooks pack) = [])"
  then have n: "normalizedEvents pack = addEntries (resolvedBaseDir pack) es emptyObject"
    by (simp add: normalizedEvents_def)
  have d: "k \<notin> fst ` set (own (normalizedEvents pack))"
    and g: "pathOf (getProp (normalizedEvents pack) k) = None"
    unfolding n using a dropped_from_addEntries by blast+
  show "k \<notin> fst ` set (own (events (buildConfigFromPack pack)))"
    unfolding events_buildConfigFromPack_keys using a d by auto
  have m: "map_of (own (normalizedEvents pack)) k = None"
    using d by (simp add: map_of_eq_None_iff)
  show "pathOf (getProp (events (buildConfigFromPack pack)) k) = None"
  proof (cases "own (normalizedEvents pack) = [] \<and> own (normalizedHooks pack) = []")
    case True
    then have "k \<noteq> ''session.idle''" using a by blast
    then show ?thesis
      using True g m
      by (auto simp: events_buildConfigFromPack setProp_def getProp_def split: option.splits)
  next
    case False
    then show ?thesis using g by (auto simp: events_buildConfigFromPack)
  qed
next
  assume a: "packHooks pack = Some hs \<and> distinct (map fst hs) \<and> (k, e) \<in> set hs \<and>
      rawPath e = []"
  then have n: "normalizedHooks pack = addEntries (resolvedBaseDir pack) hs emptyObject"
    by (simp add: normalizedHooks_def)
  show "k \<notin> fst ` set (own (hooks (buildConfigFromPack pack)))"
    unfolding hooks_buildConfigFromPack n using a dropped_from_addEntries by blast
  show "pathOf (getProp (hooks (buildConfigFromPack pack)) k) = None"
    unfolding hooks_buildConfigFromPack n using a dropped_from_addEntries by blast
next
  assume "pathOf (getProp (events (buildConfigFromPack pack)) key) = Some path"
  then show "path \<noteq> []"
    using nonemptyPaths_buildConfigFromPack pathOf_getProp_nonempty by blast
next
  assume "pathOf (getProp (hooks (buildConfigFromPack pack)) key) = Some path"
  then show "path \<noteq> []"
    using nonemptyPaths_buildConfigFromPack pathOf_getProp_nonempty by blast
next
  show "nonemptyPaths (events (buildConfigFromPack pack))"
    by (simp add: nonemptyPaths_buildConfigFromPack)
  show "nonemptyPaths (hooks (buildConfigFromPack pack))"
    by (simp add: nonemptyPaths_buildConfigFromPack)
next
  assume a: "packEvents pack = Some es \<and> distinct (map fst es) \<and>
      (''foo'', EntryObject []) \<in> set es"
  then have n: "normalizedEvents pack = addEntries (resolvedBaseDir pack) es emptyObject"
    by (simp add: normalizedEvents_def)
  have "rawPath (EntryObject []) = []" by simp
  then have "''foo'' \<notin> fst ` set (own (normalizedEvents pack))"
    unfolding n using a dropped_from_addEntries by blast
  then show "''foo'' \<notin> fst ` set (own (events (buildConfigFromPack pack)))"
    unfolding events_buildConfigFromPack_keys by auto
qed


theorem empty_entries_dropped_witness:
  "''foo'' \<notin> fst ` set (own (events (buildConfigFromPack (Some mixedPack)))) \<and>
   pathOf (getProp (events (buildConfigFromPack (Some mixedPack))) ''foo'') = None \<and>
   ''permission.ask'' \<notin> fst ` set (own (hooks (buildConfigFromPack (Some mixedPack)))) \<and>
   pathOf (getProp (hooks (buildConfigFromPack (Some mixedPack))) ''permission.ask'') = None \<and>
   pathOf (getProp (events (buildConfigFromPack (Some mixedPack))) ''bar'') =
     Some ''~/.claude/sounds/b.wav''"
proof -
  let ?es = "[(''foo'', EntryObject []), (''bar'', EntryString ''b.wav'')]"
  let ?hs = "[(''permission.ask'', EntryString [])]"
  have pe: "packEvents (Some mixedPack) = Some ?es"
    by (simp add: packEvents_def mixedPack_def)
  have ph: "packHooks (Some mixedPack) = Some ?hs"
    by (simp add: packHooks_def mixedPack_def)
  have a: "packEvents (Some mixedPack) = Some ?es \<and> distinct (map fst ?es) \<and>
      (''foo'', EntryObject []) \<in> set ?es \<and> rawPath (EntryObject []) = [] \<and>
      \<not> (''foo'' = ''session.idle'' \<and> own (normalizedEvents (Some mixedPack)) = [] \<and>
           own (normalizedHooks (Some mixedPack)) = [])"
    by (simp add: pe)
  have b: "packHooks (Some mixedPack) = Some ?hs \<and> distinct (map fst ?hs) \<and>
      (''permission.ask'', EntryString []) \<in> set ?hs \<and> rawPath (EntryString []) = []"
    by (simp add: ph)
  have ne: "normalizedEvents (Some mixedPack) =
      \<lparr>own = [(''bar'', ''~/.claude/sounds/b.wav'')], proto = None\<rparr>"
    by (simp add: normalizedEvents_def packEvents_def resolvedBaseDir_def mixedPack_def
        DEFAULT_BASE_DIR_def normalizePath_def startsWith_def endsWith_def suffix_to_prefix
        setProp_def emptyObject_def)
  have c: "pathOf (getProp (events (buildConfigFromPack (Some mixedPack))) ''bar'') =
      Some ''~/.claude/sounds/b.wav''"
    by (simp add: events_buildConfigFromPack ne getProp_def)
  from empty_entries_dropped
    [of "Some mixedPack" ?es "''foo''" "EntryObject []" ?hs "''bar''"
      "''~/.claude/sounds/b.wav''", THEN conjunct1] a
  have 1: "''foo'' \<notin> fst ` set (own (events (buildConfigFromPack (Some mixedPack)))) \<and>
      pathOf (getProp (events (buildConfigFromPack (Some mixedPack))) ''foo'') = None"
    by (rule mp)
  from empty_entries_dropped
    [of "Some mixedPack" ?es "''permission.ask''" "EntryString []" ?hs "''bar''"
      "''~/.claude/sounds/b.wav''", THEN conjunct2, THEN conjunct1] b
  have 2: "''permission.ask'' \<notin> fst ` set (own (hooks (buildConfigFromPack (Some mixedPack)))) \<and>
      pathOf (getProp (hooks (buildConfigFromPack (Some mixedPack))) ''permission.ask'') = None"
    by (rule mp)
  show ?thesis
    using 1 2 c by (simp only: simp_thms)
qed

text \<open>
  C5 as stated has every entry with an empty raw path absent from the resolved mappings.
  The pack \<open>{opencode: {events: {"session.idle": ""}}}\<close> has such an entry under
  \<open>session.idle\<close>; it is dropped, both objects are then empty, and the default puts the
  key \<open>session.idle\<close> back into \<open>events\<close>.
\<close>

theorem empty_idle_entry_counterexample:
  "packEvents (Some (eventsPack [(''session.idle'', EntryString [])])) =
     Some [(''session.idle'', EntryString [])] \<and>
   rawPath (EntryString []) = [] \<and>
   ''session.idle'' \<in>
     fst ` set (own (events (buildConfigFromPack (Some (eventsPack [(''session.idle'', EntryString [])])))))"
proof -
  let ?pack = "Some (eventsPack [(''session.idle'', EntryString [])])"
  have e: "normalizedEvents ?pack = emptyObject"
    by (simp add: normalizedEvents_def packEvents_def eventsPack_def normalizePath_def)
  have h: "normalizedHooks ?pack = emptyObject"
    by (simp add: normalizedHooks_def packHooks_def eventsPack_def)
  show ?thesis
    by (simp add: events_buildConfigFromPack_keys e h emptyObject_def)
      (simp add: packEvents_def eventsPack_def)
qed

section \<open>The two dispatch designs\<close>

lemma playMatching_absent: "ty \<notin> fst ` set m \<Longrightarrow> playMatching play m ty = []"
  by (induction m) auto

lemma playMatching_distinct:
  "distinct (map fst m) \<Longrightarrow>
   playMatching play m ty = (case map_of m ty of None \<Rightarrow> [] | Some path \<Rightarrow> [play path])"
proof (induction m)
  case Nil
  then show ?case by simp
next
  case (Cons a m)
  obtain k v where a: "a = (k, v)" by (cases a)
  show ?case
    using Cons unfolding a by (auto simp: playMatching_absent)
qed

lemma pathOf_getProp:
  "proto obj = None \<or> ty \<noteq> ''__proto__'' \<Longrightarrow> pathOf (getProp obj ty) = map_of (own obj) ty"
  by (auto simp: getProp_def split: option.splits)

lemma event_lookup:
  assumes "nonemptyPaths (events cfg)" and "proto (events cfg) = None \<or> ty \<noteq> ''__proto__''"
  shows "event play cfg ty =
     (case map_of (own (events cfg)) ty of None \<Rightarrow> [] | Some path \<Rightarrow> [play path])"
proof (cases "map_of (own (events cfg)) ty")
  case None
  then show ?thesis using assms(2) by (simp add: event_def pathOf_getProp)
next
  case (Some path)
  then have "(ty, path) \<in> set (own (events cfg))" by (rule map_of_SomeD)
  then have "path \<noteq> []" using assms(1) by (auto simp: nonemptyPaths_def)
  then show ?thesis using Some assms(2) by (simp add: event_def pathOf_getProp)
qed

text \<open>The prototype of \<open>events\<close> is replaced only by a pack entry under \<open>__proto__\<close>.\<close>

lemma proto_buildConfigFromPack:
  "\<forall>es e. packEvents pack = Some es \<and> (''__proto__'', e) \<in> set es \<longrightarrow> rawPath e = [] \<Longrightarrow>
   proto (events (buildConfigFromPack pack)) = None"
  by (auto simp: events_buildConfigFromPack normalizedEvents_def addEntries_proto_unchanged
      emptyObject_def setProp_def split: option.splits)

text \<open>
  C2, as amended. Let a resolved configuration have each key once and only non-empty
  paths, as every configuration of \<open>buildConfigFromPack\<close> has. For every incoming event
  whose type is not \<open>__proto__\<close>, and for that type too when the prototype of \<open>events\<close>
  has not been replaced, the handler that goes through all keys and the handler that
  looks the event type up call \<open>playSound\<close> with the same paths: once when the type is a
  key, not at all otherwise. The two \<open>playSound\<close> functions themselves, which differ, are
  a parameter here.
\<close>

theorem dispatch_designs_agree:
  "(distinct (map fst (own (events cfg))) \<and> nonemptyPaths (events cfg) \<and>
      (proto (events cfg) = None \<or> ty \<noteq> ''__proto__'') \<longrightarrow>
    event play cfg ty = event_sfx play (events cfg) ty) \<and>
   (proto (events (buildConfigFromPack pack)) = None \<or> ty \<noteq> ''__proto__'' \<longrightarrow>
    event play (buildConfigFromPack pack) ty =
      event_sfx play (events (buildConfigFromPack pack)) ty)"
  by (simp add: event_lookup event_sfx_def playMatching_distinct
      distinct_buildConfigFromPack nonemptyPaths_buildConfigFromPack)

theorem dispatch_designs_agree_witness:
  "event (\<lambda>path. path) (buildConfigFromPack None) ''session.idle'' =
     [''~/.claude/sounds/mew.wav''] \<and>
   event_sfx (\<lambda>path. path) (events (buildConfigFromPack None)) ''session.idle'' =
     [''~/.claude/sounds/mew.wav''] \<and>
   event (\<lambda>path. path) (buildConfigFromPack None) ''file.edited'' = [] \<and>
   event_sfx (\<lambda>path. path) (events (buildConfigFromPack None)) ''file.edited'' = []"
proof -
  let ?cfg = "buildConfigFromPack None"
  have c: "?cfg = \<lparr>events = defaultEvents, hooks = emptyObject\<rparr>"
    by (rule buildConfigFromPack_None)
  have h: "distinct (map fst (own (events ?cfg))) \<and> nonemptyPaths (events ?cfg) \<and>
      (proto (events ?cfg) = None \<or> ty \<noteq> ''__proto__'')" for ty
    by (simp add: c defaultEvents_def nonemptyPaths_def)
  have s: "event_sfx (\<lambda>path. path) (events ?cfg) ''session.idle'' = [''~/.claude/sounds/mew.wav'']"
    by (simp add: c defaultEvents_def event_sfx_def)
  have q: "event_sfx (\<lambda>path. path) (events ?cfg) ''file.edited'' = []"
    by (simp add: c defaultEvents_def event_sfx_def)
  from dispatch_designs_agree [of ?cfg "''session.idle''" "\<lambda>path. path", THEN conjunct1] h
  have 1: "event (\<lambda>path. path) ?cfg ''session.idle'' =
      event_sfx (\<lambda>path. path) (events ?cfg) ''session.idle''"
    by (rule mp)
  from dispatch_designs_agree [of ?cfg "''file.edited''" "\<lambda>path. path", THEN conjunct1] h
  have 2: "event (\<lambda>path. path) ?cfg ''file.edited'' =
      event_sfx (\<lambda>path. path) (events ?cfg) ''file.edited''"
    by (rule mp)
  show ?thesis
    using 1 2 s q by (simp only: simp_thms)
qed

text \<open>
  C2 as stated holds for every incoming event. The pack
  \<open>{opencode: {events: {"__proto__": "x.wav"}}}\<close> resolves to an \<open>events\<close> object with
  the one key \<open>session.idle\<close> and a replaced prototype. For an event of type
  \<open>__proto__\<close> the single-key lookup finds that prototype and plays its path; the
  handler going through the keys plays nothing.
\<close>

theorem replaced_prototype_counterexample:
  "events (buildConfigFromPack (Some (eventsPack [(''__proto__'', EntryString ''x.wav'')]))) =
     \<lparr>own = [(''session.idle'', ''~/.claude/sounds/mew.wav'')],
      proto = Some ''~/.claude/sounds/x.wav''\<rparr> \<and>
   event (\<lambda>path. path)
     (buildConfigFromPack (Some (eventsPack [(''__proto__'', EntryString ''x.wav'')])))
     ''__proto__'' = [''~/.claude/sounds/x.wav''] \<and>
   event_sfx (\<lambda>path. path)
     (events (buildConfigFromPack (Some (eventsPack [(''__proto__'', EntryString ''x.wav'')]))))
     ''__proto__'' = []"
proof -
  let ?pack = "Some (eventsPack [(''__proto__'', EntryString ''x.wav'')])"
  have e: "normalizedEvents ?pack = \<lparr>own = [], proto = Some ''~/.claude/sounds/x.wav''\<rparr>"
    by (simp add: normalizedEvents_def packEvents_def resolvedBaseDir_def DEFAULT_BASE_DIR_def
        eventsPack_def normalizePath_def startsWith_def endsWith_def suffix_to_prefix
        setProp_def emptyObject_def)
  have h: "normalizedHooks ?pack = emptyObject"
    by (simp add: normalizedHooks_def packHooks_def eventsPack_def)
  have c: "events (buildConfigFromPack ?pack) =
      \<lparr>own = [(''session.idle'', ''~/.claude/sounds/mew.wav'')],
       proto = Some ''~/.claude/sounds/x.wav''\<rparr>"
    by (simp add: events_buildConfigFromPack e h emptyObject_def setProp_def)
  show ?thesis
    by (simp add: c event_def event_sfx_def getProp_def)
qed

section \<open>The run-time code on packs of the declared type\<close>

lemma normalizePath_js_typed:
  "normalizePath_js (JStr dir) (encodeEntry entry) = Inr (normalizePath dir entry)"
  by (cases entry) (simp_all add: normalizePath_js_def normalizePath_def Let_def)

lemma addEntries_js_typed:
  "addEntries_js (JStr dir) (map (\<lambda>(key, entry). (key, encodeEntry entry)) es) obj =
     Inr (addEntries dir es obj)"
proof (induction es arbitrary: obj)
  case Nil
  then show ?case by simp
next
  case (Cons a es)
  obtain k e where a: "a = (k, e)" by (cases a)
  show ?case
    unfolding a using Cons by (simp add: normalizePath_js_typed Let_def)
qed

lemma member_baseDir:
  "member (encodePack p) ''baseDir'' = map_option JStr (baseDir p)"
  by (cases "schema p"; cases "version p"; cases "baseDir p"; cases "opencode p"; cases "claude p")
    (simp_all add: encodePack_def)

lemma member_opencode:
  "member (encodePack p) ''opencode'' = map_option encodeOpencode (opencode p)"
  by (cases "schema p"; cases "version p"; cases "baseDir p"; cases "opencode p"; cases "claude p")
    (simp_all add: encodePack_def)

lemma member_events:
  "member (encodeOpencode oc) ''events'' = map_option encodeRecord (oc_events oc)"
  by (cases "oc_events oc"; cases "oc_hooks oc") (simp_all add: encodeOpencode_def)

lemma member_hooks:
  "member (encodeOpencode oc) ''hooks'' = map_option encodeRecord (oc_hooks oc)"
  by (cases "oc_events oc"; cases "oc_hooks oc") (simp_all add: encodeOpencode_def)

lemma optMember_encodePack: "optMember (Some (encodePack p)) name = member (encodePack p) name"
  by (simp add: encodePack_def)

lemma optMember_encodeOpencode:
  "optMember (Some (encodeOpencode oc)) name = member (encodeOpencode oc) name"
  by (simp add: encodeOpencode_def)

lemma resolvedBaseDir_js_typed:
  "resolvedBaseDir_js (encodePackOrNull pack) = JStr (resolvedBaseDir pack)"
proof (cases pack)
  case None
  then show ?thesis by (simp add: resolvedBaseDir_js_def resolvedBaseDir_def)
next
  case (Some p)
  then show ?thesis
    by (cases "baseDir p")
      (simp_all add: resolvedBaseDir_js_def resolvedBaseDir_def optMember_encodePack
        member_baseDir)
qed

lemma section_events_typed:
  "optMember (optMember (Some (encodePackOrNull pack)) ''opencode'') ''events'' =
     map_option encodeRecord (packEvents pack)"
proof (cases pack)
  case None
  then show ?thesis by (simp add: packEvents_def)
next
  case (Some p)
  then show ?thesis
    by (cases "opencode p")
      (simp_all add: packEvents_def optMember_encodePack member_opencode
        optMember_encodeOpencode member_events)
qed

lemma section_hooks_typed:
  "optMember (optMember (Some (encodePackOrNull pack)) ''opencode'') ''hooks'' =
     map_option encodeRecord (packHooks pack)"
proof (cases pack)
  case None
  then show ?thesis by (simp add: packHooks_def)
next
  case (Some p)
  then show ?thesis
    by (cases "opencode p")
      (simp_all add: packHooks_def optMember_encodePack member_opencode
        optMember_encodeOpencode member_hooks)
qed

lemma normalizedSection_js_events:
  "normalizedSection_js (encodePackOrNull pack) ''events'' = Inr (normalizedEvents pack)"
  by (cases "packEvents pack")
    (simp_all add: normalizedSection_js_def section_events_typed normalizedEvents_def
      encodeRecord_def resolvedBaseDir_js_typed addEntries_js_typed)

lemma normalizedSection_js_hooks:
  "normalizedSection_js (encodePackOrNull pack) ''hooks'' = Inr (normalizedHooks pack)"
  by (cases "packHooks pack")
    (simp_all add: normalizedSection_js_def section_hooks_typed normalizedHooks_def
      encodeRecord_def resolvedBaseDir_js_typed addEntries_js_typed)

lemma buildConfigFromPack_js_typed:
  "buildConfigFromPack_js (encodePackOrNull pack) = Inr (buildConfigFromPack pack)"
  by (simp add: buildConfigFromPack_js_def buildConfigFromPack_def Let_def
      normalizedSection_js_events normalizedSection_js_hooks)

section \<open>When the run-time code throws\<close>

lemma normalizePath_js_throws:
  "entryThrows dir entry \<Longrightarrow> normalizePath_js dir entry = Inl TypeError"
  by (cases entry; cases dir)
    (auto simp: entryThrows_def normalizePath_js_def relativePath_def
      split: option.splits json.splits)

lemma normalizePath_js_returns:
  "\<not> entryThrows dir entry \<Longrightarrow> \<exists>s. normalizePath_js dir entry = Inr s"
  by (cases entry; cases dir)
    (auto simp: entryThrows_def normalizePath_js_def relativePath_def
      split: option.splits json.splits)

lemma addEntries_js_throws:
  "list_ex (\<lambda>(key, entry). entryThrows dir entry) kvs \<Longrightarrow>
   addEntries_js dir kvs obj = Inl TypeError"
proof (induction kvs arbitrary: obj)
  case Nil
  then show ?case by simp
next
  case (Cons a kvs)
  obtain k e where a: "a = (k, e)" by (cases a)
  show ?case
  proof (cases "entryThrows dir e")
    case True
    then show ?thesis unfolding a by (simp add: normalizePath_js_throws)
  next
    case False
    then obtain s where "normalizePath_js dir e = Inr s"
      using normalizePath_js_returns by blast
    then show ?thesis using Cons False unfolding a by simp
  qed
qed

lemma addEntries_js_returns:
  "\<not> list_ex (\<lambda>(key, entry). entryThrows dir entry) kvs \<Longrightarrow>
   \<exists>res. addEntries_js dir kvs obj = Inr res"
proof (induction kvs arbitrary: obj)
  case Nil
  then show ?case by simp
next
  case (Cons a kvs)
  obtain k e where a: "a = (k, e)" by (cases a)
  from Cons.prems have f: "\<not> entryThrows dir e" unfolding a by simp
  then obtain s where "normalizePath_js dir e = Inr s"
    using normalizePath_js_returns by blast
  then show ?case using Cons unfolding a by simp
qed

lemma objectEntries_truthy: "truthy sec \<Longrightarrow> \<exists>kvs. objectEntries sec = Inr kvs"
  by (cases sec) simp_all

lemma normalizedSection_js_throws:
  "list_ex (\<lambda>(key, entry). entryThrows (resolvedBaseDir_js pack) entry) (sectionEntries pack name) \<Longrightarrow>
   normalizedSection_js pack name = Inl TypeError"
  by (auto simp: sectionEntries_def normalizedSection_js_def addEntries_js_throws
      split: option.splits if_splits sum.splits)

lemma normalizedSection_js_returns:
  "\<not> list_ex (\<lambda>(key, entry). entryThrows (resolvedBaseDir_js pack) entry) (sectionEntries pack name) \<Longrightarrow>
   \<exists>res. normalizedSection_js pack name = Inr res"
  using objectEntries_truthy
  by (fastforce simp: sectionEntries_def normalizedSection_js_def
      split: option.splits if_splits sum.splits dest: addEntries_js_returns)

lemma buildConfigFromPack_js_throws:
  "throwsOn pack \<Longrightarrow> buildConfigFromPack_js pack = Inl TypeError"
proof -
  assume t: "throwsOn pack"
  show ?thesis
  proof (cases "list_ex (\<lambda>(key, entry). entryThrows (resolvedBaseDir_js pack) entry)
      (sectionEntries pack ''events'')")
    case True
    then show ?thesis
      by (simp add: buildConfigFromPack_js_def normalizedSection_js_throws)
  next
    case False
    then obtain evs where e: "normalizedSection_js pack ''events'' = Inr evs"
      using normalizedSection_js_returns by blast
    from t False have "list_ex (\<lambda>(key, entry). entryThrows (resolvedBaseDir_js pack) entry)
      (sectionEntries pack ''hooks'')"
      by (simp add: throwsOn_def)
    then show ?thesis
      by (simp add: buildConfigFromPack_js_def e normalizedSection_js_throws)
  qed
qed

lemma buildConfigFromPack_js_returns:
  "\<not> throwsOn pack \<Longrightarrow> \<exists>cfg. buildConfigFromPack_js pack = Inr cfg"
proof -
  assume t: "\<not> throwsOn pack"
  then obtain evs hks where "normalizedSection_js pack ''events'' = Inr evs"
    and "normalizedSection_js pack ''hooks'' = Inr hks"
    using normalizedSection_js_returns [of pack "''events''"]
      normalizedSection_js_returns [of pack "''hooks''"]
    by (auto simp: throwsOn_def)
  then show ?thesis
    by (simp add: buildConfigFromPack_js_def)
qed

lemma buildConfigFromPack_js_error_iff:
  "(buildConfigFromPack_js pack = Inl e) = (e = TypeError \<and> throwsOn pack)"
  using buildConfigFromPack_js_throws [of pack] buildConfigFromPack_js_returns [of pack]
  by (cases "throwsOn pack") auto


lemma normalizePath_js_entry:
  "isSoundEntry e \<Longrightarrow> normalizePath_js (JStr dir) e = Inr (normalizePath dir (decodeEntry e))"
  by (cases e)
    (auto simp: isSoundEntry_def decodeEntry_def normalizePath_js_def normalizePath_def Let_def
      split: option.splits json.splits)

lemma addEntries_js_record:
  "list_all (\<lambda>(key, entry). isSoundEntry entry) kvs \<Longrightarrow>
   addEntries_js (JStr dir) kvs obj =
     Inr (addEntries dir (map (\<lambda>(key, entry). (key, decodeEntry entry)) kvs) obj)"
proof (induction kvs arbitrary: obj)
  case Nil
  then show ?case by simp
next
  case (Cons a kvs)
  obtain k e where a: "a = (k, e)" by (cases a)
  show ?case
    using Cons unfolding a by (simp add: normalizePath_js_entry Let_def)
qed

lemma isStringD: "isString v \<Longrightarrow> \<exists>s. v = JStr s"
  by (cases v) simp_all

lemma resolvedBaseDir_js_doc:
  "hasSoundPackType doc \<Longrightarrow>
   resolvedBaseDir_js doc = JStr (resolvedBaseDir (Some (decodePack doc)))"
  by (cases doc)
    (auto simp: hasSoundPackType_def resolvedBaseDir_js_def resolvedBaseDir_def decodePack_def
      split: option.splits dest!: isStringD)

lemma section_js_record:
  "isEntryRecord sec \<Longrightarrow>
   (case objectEntries sec of
      Inl e \<Rightarrow> Inl e
    | Inr kvs \<Rightarrow> addEntries_js (JStr dir) kvs emptyObject) =
     Inr (addEntries dir (decodeRecord sec) emptyObject) \<and> truthy sec"
  by (cases sec) (simp_all add: isEntryRecord_def decodeRecord_def addEntries_js_record)

lemma normalizedSection_js_events_doc:
  assumes "hasSoundPackType doc"
  shows "normalizedSection_js doc ''events'' = Inr (normalizedEvents (Some (decodePack doc)))"
proof -
  obtain kvs where d: "doc = JObj kvs"
    using assms by (cases doc) (simp_all add: hasSoundPackType_def)
  have b: "resolvedBaseDir_js doc = JStr (resolvedBaseDir (Some (decodePack doc)))"
    using assms by (rule resolvedBaseDir_js_doc)
  show ?thesis
  proof (cases "map_of kvs ''opencode''")
    case None
    then show ?thesis
      by (simp add: d normalizedSection_js_def normalizedEvents_def packEvents_def decodePack_def)
  next
    case (Some oc)
    then have "isOpencode oc" using assms by (simp add: d hasSoundPackType_def)
    then obtain okvs where o: "oc = JObj okvs"
      and r: "holdsIfPresent isEntryRecord (map_of okvs ''events'')"
      by (cases oc) (simp_all add: isOpencode_def)
    show ?thesis
    proof (cases "map_of okvs ''events''")
      case None
      then show ?thesis
        using Some o
        by (simp add: d normalizedSection_js_def normalizedEvents_def packEvents_def
            decodePack_def decodeOpencode_def)
    next
      case (Some sec)
      then have "isEntryRecord sec" using r by simp
      note s = section_js_record [OF this, of "resolvedBaseDir (Some (decodePack doc))"]
      have pe: "packEvents (Some (decodePack doc)) = Some (decodeRecord sec)"
        using Some \<open>map_of kvs ''opencode'' = Some oc\<close> o
        by (simp add: d packEvents_def decodePack_def decodeOpencode_def)
      have sv: "optMember (optMember (Some doc) ''opencode'') ''events'' = Some sec"
        using Some \<open>map_of kvs ''opencode'' = Some oc\<close> o by (simp add: d)
      show ?thesis
        unfolding normalizedSection_js_def sv normalizedEvents_def pe b using s by simp
    qed
  qed
qed

lemma normalizedSection_js_hooks_doc:
  assumes "hasSoundPackType doc"
  shows "normalizedSection_js doc ''hooks'' = Inr (normalizedHooks (Some (decodePack doc)))"
proof -
  obtain kvs where d: "doc = JObj kvs"
    using assms by (cases doc) (simp_all add: hasSoundPackType_def)
  have b: "resolvedBaseDir_js doc = JStr (resolvedBaseDir (Some (decodePack doc)))"
    using assms by (rule resolvedBaseDir_js_doc)
  show ?thesis
  proof (cases "map_of kvs ''opencode''")
    case None
    then show ?thesis
      by (simp add: d normalizedSection_js_def normalizedHooks_def packHooks_def decodePack_def)
  next
    case (Some oc)
    then have "isOpencode oc" using assms by (simp add: d hasSoundPackType_def)
    then obtain okvs where o: "oc = JObj okvs"
      and r: "holdsIfPresent isEntryRecord (map_of okvs ''hooks'')"
      by (cases oc) (simp_all add: isOpencode_def)
    show ?thesis
    proof (cases "map_of okvs ''hooks''")
      case None
      then show ?thesis
        using Some o
        by (simp add: d normalizedSection_js_def normalizedHooks_def packHooks_def
            decodePack_def decodeOpencode_def)
    next
      case (Some sec)
      then have "isEntryRecord sec" using r by simp
      note s = section_js_record [OF this, of "resolvedBaseDir (Some (decodePack doc))"]
      have pe: "packHooks (Some (decodePack doc)) = Some (decodeRecord sec)"
        using Some \<open>map_of kvs ''opencode'' = Some oc\<close> o
        by (simp add: d packHooks_def decodePack_def decodeOpencode_def)
      have sv: "optMember (optMember (Some doc) ''opencode'') ''hooks'' = Some sec"
        using Some \<open>map_of kvs ''opencode'' = Some oc\<close> o by (simp add: d)
      show ?thesis
        unfolding normalizedSection_js_def sv normalizedHooks_def pe b using s by simp
    qed
  qed
qed

lemma buildConfigFromPack_js_doc:
  "hasSoundPackType doc \<Longrightarrow>
   buildConfigFromPack_js doc = Inr (buildConfigFromPack (Some (decodePack doc)))"
  by (simp add: buildConfigFromPack_js_def buildConfigFromPack_def Let_def
      normalizedSection_js_events_doc normalizedSection_js_hooks_doc)

lemma typed_not_throws: "hasSoundPackType doc \<Longrightarrow> \<not> throwsOn doc"
  using buildConfigFromPack_js_doc [of doc] buildConfigFromPack_js_throws [of doc] by auto

lemma isSoundEntry_encodeEntry: "isSoundEntry (encodeEntry e)"
  by (cases e) (simp_all add: isSoundEntry_def)

lemma isEntryRecord_encodeRecord: "isEntryRecord (encodeRecord es)"
  by (induction es) (auto simp: isEntryRecord_def encodeRecord_def isSoundEntry_encodeEntry)

lemma isOpencode_encodeOpencode: "isOpencode (encodeOpencode oc)"
  by (cases "oc_events oc"; cases "oc_hooks oc")
    (simp_all add: isOpencode_def encodeOpencode_def isEntryRecord_encodeRecord)

lemma isClaude_encode:
  "isClaude (JObj (map (\<lambda>(key, r). (key, encodeRecord r)) c))"
  by (induction c) (auto simp: isClaude_def isEntryRecord_encodeRecord)

lemma hasSoundPackType_encodePack: "hasSoundPackType (encodePack p)"
  by (cases "schema p"; cases "version p"; cases "baseDir p"; cases "opencode p"; cases "claude p")
    (simp_all add: hasSoundPackType_def encodePack_def isOpencode_encodeOpencode isClaude_encode)


text \<open>
  C8, as amended. For every list of candidate paths and whatever the files hold,
  \<open>loadSoundPack\<close> returns and throws nothing. \<open>buildConfigFromPack\<close> returns on every
  parsed document, \<open>null\<close> included, except on those where a loop over a truthy
  \<open>opencode.events\<close> or \<open>opencode.hooks\<close> meets an entry that is \<open>null\<close>, or whose raw
  path is truthy and not a string, or whose raw path is relative while \<open>baseDir\<close> is
  truthy and not a string; on exactly those it throws a \<open>TypeError\<close>, and so does the
  resolution when such a document is the loaded pack. Every document of the declared
  type \<open>SoundPack\<close>, whatever the order of its keys and whatever further keys it has, is
  among those on which it returns, with the configuration of the typed model. When no
  candidate yields a pack the resolution returns the default configuration.
\<close>

theorem resolution_returns_normally:
  "(\<forall>e. loadSoundPack home fs paths \<noteq> Inl e) \<and>
   ((buildConfigFromPack_js doc = Inl e) = (e = TypeError \<and> throwsOn doc)) \<and>
   (\<not> throwsOn doc \<longrightarrow> (\<exists>cfg. buildConfigFromPack_js doc = Inr cfg)) \<and>
   (hasSoundPackType doc \<longrightarrow>
      \<not> throwsOn doc \<and>
      buildConfigFromPack_js doc = Inr (buildConfigFromPack (Some (decodePack doc)))) \<and>
   hasSoundPackType (encodePack p) \<and>
   buildConfigFromPack_js (encodePackOrNull pack) = Inr (buildConfigFromPack pack) \<and>
   (loadSoundPack home fs paths = Inr (encodePackOrNull pack) \<longrightarrow>
      resolveConfig home fs paths = Inr (buildConfigFromPack pack)) \<and>
   (loadSoundPack home fs paths = Inr doc \<longrightarrow>
      (resolveConfig home fs paths = Inl e) = (e = TypeError \<and> throwsOn doc)) \<and>
   ((\<forall>q \<in> set paths. \<not> yieldsPack home fs q) \<longrightarrow>
      resolveConfig home fs paths = Inr \<lparr>events = defaultEvents, hooks = emptyObject\<rparr>)"
proof (intro conjI impI allI)
  fix e'
  show "loadSoundPack home fs paths \<noteq> Inl e'"
    using loadSoundPack_returns [of home fs paths] by auto
next
  show "(buildConfigFromPack_js doc = Inl e) = (e = TypeError \<and> throwsOn doc)"
    by (rule buildConfigFromPack_js_error_iff)
next
  assume "\<not> throwsOn doc"
  then show "\<exists>cfg. buildConfigFromPack_js doc = Inr cfg"
    by (rule buildConfigFromPack_js_returns)
next
  assume "hasSoundPackType doc"
  then show "\<not> throwsOn doc" by (rule typed_not_throws)
next
  assume "hasSoundPackType doc"
  then show "buildConfigFromPack_js doc = Inr (buildConfigFromPack (Some (decodePack doc)))"
    by (rule buildConfigFromPack_js_doc)
next
  show "hasSoundPackType (encodePack p)" by (rule hasSoundPackType_encodePack)
next
  show "buildConfigFromPack_js (encodePackOrNull pack) = Inr (buildConfigFromPack pack)"
    by (rule buildConfigFromPack_js_typed)
next
  assume "loadSoundPack home fs paths = Inr (encodePackOrNull pack)"
  then show "resolveConfig home fs paths = Inr (buildConfigFromPack pack)"
    by (simp add: resolveConfig_def buildConfigFromPack_js_typed)
next
  assume "loadSoundPack home fs paths = Inr doc"
  then show "(resolveConfig home fs paths = Inl e) = (e = TypeError \<and> throwsOn doc)"
    by (simp add: resolveConfig_def buildConfigFromPack_js_error_iff)
next
  assume "\<forall>q \<in> set paths. \<not> yieldsPack home fs q"
  then show "resolveConfig home fs paths = Inr \<lparr>events = defaultEvents, hooks = emptyObject\<rparr>"
    by (simp add: resolveConfig_def loadSoundPack_none buildConfigFromPack_js_null)
qed

theorem resolution_returns_normally_witness:
  "resolveConfig None sndFiles [''/proj/.opencode/soundpack.json'', ''/cfg/soundpack.json''] =
     Inr (buildConfigFromPack (Some sndPack)) \<and>
   resolveConfig None sndFiles [''/proj/.opencode/soundpack.json''] =
     Inr \<lparr>events = defaultEvents, hooks = emptyObject\<rparr> \<and>
   buildConfigFromPack_js reorderedDoc =
     Inr \<lparr>events = \<lparr>own = [(''session.idle'', ''/snd/mew.wav'')], proto = None\<rparr>,
          hooks = emptyObject\<rparr> \<and>
   (\<exists>cfg. buildConfigFromPack_js looseDoc = Inr cfg)"
proof -
  have o: "encodePack sndPack =
      JObj [(''baseDir'', JStr ''/snd''),
            (''opencode'', JObj [(''events'', JObj [(''session.idle'', JStr ''mew.wav'')])])]"
    by (simp add: encodePack_def sndPack_def encodeOpencode_def encodeRecord_def)
  have l: "loadSoundPack None sndFiles [''/proj/.opencode/soundpack.json'', ''/cfg/soundpack.json''] =
      Inr (encodePackOrNull (Some sndPack))"
    by (simp add: sndFiles_def expandTilde_def startsWith_def o)
  have n: "\<forall>q \<in> set [''/proj/.opencode/soundpack.json'']. \<not> yieldsPack None sndFiles q"
    by (simp add: yieldsPack_def sndFiles_def expandTilde_def startsWith_def)
  note t1 = resolution_returns_normally
    [of None sndFiles "[''/proj/.opencode/soundpack.json'', ''/cfg/soundpack.json'']"
      reorderedDoc TypeError sndPack "Some sndPack"]
  note t2 = resolution_returns_normally
    [of None sndFiles "[''/proj/.opencode/soundpack.json'']" looseDoc TypeError sndPack None]
  from t1 l
  have 1: "resolveConfig None sndFiles
      [''/proj/.opencode/soundpack.json'', ''/cfg/soundpack.json''] =
      Inr (buildConfigFromPack (Some sndPack))"
    by (simp only: simp_thms)
  from t2 n
  have 2: "resolveConfig None sndFiles [''/proj/.opencode/soundpack.json''] =
      Inr \<lparr>events = defaultEvents, hooks = emptyObject\<rparr>"
    by (simp only: simp_thms)
  have ty: "hasSoundPackType reorderedDoc"
    by (simp add: hasSoundPackType_def reorderedDoc_def isOpencode_def isEntryRecord_def
        isSoundEntry_def)
  have dp: "decodePack reorderedDoc =
      \<lparr>schema = None, version = None, baseDir = Some ''/snd'',
       opencode = Some \<lparr>oc_events = Some [(''session.idle'', EntryObject ''mew.wav'')],
                        oc_hooks = Some []\<rparr>,
       claude = None\<rparr>"
    by (simp add: decodePack_def reorderedDoc_def decodeOpencode_def decodeRecord_def
        decodeEntry_def)
  have ev: "normalizedEvents (Some (decodePack reorderedDoc)) =
      \<lparr>own = [(''session.idle'', ''/snd/mew.wav'')], proto = None\<rparr>"
    unfolding dp
    by (simp add: normalizedEvents_def packEvents_def resolvedBaseDir_def
        normalizePath_def startsWith_def endsWith_def suffix_to_prefix setProp_def
        emptyObject_def)
  have hk: "normalizedHooks (Some (decodePack reorderedDoc)) = emptyObject"
    unfolding dp by (simp add: normalizedHooks_def packHooks_def)
  have bc: "buildConfigFromPack (Some (decodePack reorderedDoc)) =
      \<lparr>events = \<lparr>own = [(''session.idle'', ''/snd/mew.wav'')], proto = None\<rparr>,
       hooks = emptyObject\<rparr>"
    by (simp add: buildConfigFromPack_def ev hk)
  from t1 ty
  have "buildConfigFromPack_js reorderedDoc =
      Inr (buildConfigFromPack (Some (decodePack reorderedDoc)))"
    by (simp only: simp_thms)
  then have 3: "buildConfigFromPack_js reorderedDoc =
      Inr \<lparr>events = \<lparr>own = [(''session.idle'', ''/snd/mew.wav'')], proto = None\<rparr>,
           hooks = emptyObject\<rparr>"
    by (simp only: bc)
  have nt: "\<not> throwsOn looseDoc"
    by (simp add: throwsOn_def looseDoc_def sectionEntries_def resolvedBaseDir_js_def
        entryThrows_def relativePath_def startsWith_def digitChar_def)
  from t2 nt
  have 4: "\<exists>cfg. buildConfigFromPack_js looseDoc = Inr cfg"
    by (simp only: simp_thms)
  show ?thesis using 1 2 3 4 by (simp only: simp_thms)
qed

text \<open>
  C8 as stated covers all file contents. A file that holds
  \<open>{"opencode": {"events": {"session.idle": null}}}\<close> parses to a non-null object, so
  \<open>loadSoundPack\<close> returns it; in \<open>normalizePath\<close> the entry is not a string and
  \<open>entry.path\<close> on \<open>null\<close> throws a \<open>TypeError\<close>, which nothing catches.
\<close>

theorem null_entry_counterexample:
  "loadSoundPack None nullEntryFiles [''/proj/.opencode/soundpack.json''] =
     Inr (JObj [(''opencode'', JObj [(''events'', JObj [(''session.idle'', JNull)])])]) \<and>
   buildConfigFromPack_js
     (JObj [(''opencode'', JObj [(''events'', JObj [(''session.idle'', JNull)])])]) =
     Inl TypeError \<and>
   resolveConfig None nullEntryFiles [''/proj/.opencode/soundpack.json''] = Inl TypeError"
proof -
  have l: "loadSoundPack None nullEntryFiles [''/proj/.opencode/soundpack.json''] =
      Inr (JObj [(''opencode'', JObj [(''events'', JObj [(''session.idle'', JNull)])])])"
    by (simp add: nullEntryFiles_def expandTilde_def startsWith_def)
  have b: "buildConfigFromPack_js
      (JObj [(''opencode'', JObj [(''events'', JObj [(''session.idle'', JNull)])])]) =
      Inl TypeError"
    by (simp add: buildConfigFromPack_js_def normalizedSection_js_def normalizePath_js_def)
  show ?thesis
    by (simp only: resolveConfig_def l b sum.case simp_thms)
qed

end
